theory Spec2Isabelle
  imports Complex_Main "HOL-Library.Stream" "HOL-Library.Word"
begin

unbundle bit_operations_syntax

section \<open>JavaScript values\<close>

text \<open>
  The program is JavaScript. A Number that holds an integer is modelled by \<open>int\<close>, which is
  exact inside the safe-integer range; array lengths (a die's face count, the number of dice)
  are below \<open>2 ^ 32\<close> and stay inside it. A Number that may hold a fraction, an infinity or
  NaN is a \<open>jsnum\<close>, whose finite values are exact rationals. A value that may also be
  \<open>null\<close> or \<open>undefined\<close> is a \<open>jsval\<close>.
\<close>

datatype jsnum = NaN | PosInf | NegInf | Fin rat

datatype jsval = JNull | JUndefined | JNum int

text \<open>The operator \<open>a % b\<close> on integers: the sign follows the dividend, \<open>None\<close> is NaN.\<close>

definition js_rem :: "int \<Rightarrow> int \<Rightarrow> int option" where
  "js_rem a b = (if b = 0 then None else Some (sgn a * (\<bar>a\<bar> mod \<bar>b\<bar>)))"

text \<open>The operator \<open>a / b\<close> on finite Numbers.\<close>

definition js_div :: "rat \<Rightarrow> rat \<Rightarrow> jsnum" where
  "js_div a b =
     (if b = 0 then (if a = 0 then NaN else if 0 < a then PosInf else NegInf)
      else Fin (a / b))"

text \<open>\<open>ToNumber\<close> on the values that reach a comparison: \<open>null\<close> is 0, \<open>undefined\<close> is NaN.\<close>

fun to_number :: "jsval \<Rightarrow> int option" where
  "to_number JNull = Some 0"
| "to_number JUndefined = None"
| "to_number (JNum n) = Some n"

text \<open>The operator \<open>a > b\<close>: false as soon as one side is NaN.\<close>

definition js_gt :: "jsval \<Rightarrow> jsval \<Rightarrow> bool" where
  "js_gt a b =
     (case to_number a of None \<Rightarrow> False
      | Some x \<Rightarrow> (case to_number b of None \<Rightarrow> False | Some y \<Rightarrow> y < x))"

section \<open>Dice\<close>

record dice =
  faces :: "int list"
  numFaces :: nat

text \<open>The constructor of class \<open>Dice\<close>.\<close>

definition new_Dice :: "int list \<Rightarrow> dice" where
  "new_Dice fs = \<lparr>faces = fs, numFaces = length fs\<rparr>"

text \<open>\<open>getFace(index)\<close> is \<open>this.faces[index % this.numFaces]\<close>; reading an array at NaN or
  outside its bounds gives \<open>undefined\<close>.\<close>

definition getFace :: "dice \<Rightarrow> int \<Rightarrow> jsval" where
  "getFace d index =
     (case js_rem index (int (numFaces d)) of
        None \<Rightarrow> JUndefined
      | Some k \<Rightarrow>
          if 0 \<le> k \<and> nat k < length (faces d) then JNum (faces d ! nat k) else JUndefined)"

section \<open>Pairwise win probability\<close>

text \<open>The two nested counting loops of \<open>winProbability\<close>, the inner one first.\<close>

definition wins_inner :: "dice \<Rightarrow> dice \<Rightarrow> nat \<Rightarrow> nat \<Rightarrow> nat" where
  "wins_inner die1 die2 i wins =
     foldl (\<lambda>w j. if js_gt (getFace die1 (int i)) (getFace die2 (int j)) then w + 1 else w)
       wins [0 ..< numFaces die2]"

definition wins_outer :: "dice \<Rightarrow> dice \<Rightarrow> nat" where
  "wins_outer die1 die2 =
     foldl (\<lambda>w i. wins_inner die1 die2 i w) 0 [0 ..< numFaces die1]"

definition winProbability :: "dice \<Rightarrow> dice \<Rightarrow> jsnum" where
  "winProbability die1 die2 =
     (let wins = wins_outer die1 die2;
          total = numFaces die1 * numFaces die2
      in if 0 < total then js_div (of_nat wins) (of_nat total) else Fin 0)"





section \<open>The unbiased sampler\<close>

text \<open>A thrown \<open>Error\<close>, with its message.\<close>

datatype error = Error string

type_synonym byte = "8 word"

text \<open>
  The source of randomness is an endless stream of bytes; \<open>crypto.randomBytes(n)\<close> takes
  the next \<open>n\<close> of them.
\<close>

definition randomBytes :: "nat \<Rightarrow> byte stream \<Rightarrow> byte list \<times> byte stream" where
  "randomBytes n s = (stake n s, sdrop n s)"

text \<open>\<open>toString(2)\<close> of a BigInt: its binary digits, most significant first.\<close>

fun nat_toString2 :: "nat \<Rightarrow> string" where
  "nat_toString2 n =
     (if n < 2 then [if n = 0 then CHR ''0'' else CHR ''1'']
      else nat_toString2 (n div 2) @ [if n mod 2 = 0 then CHR ''0'' else CHR ''1''])"

declare nat_toString2.simps [simp del]

definition BigInt_toString2 :: "int \<Rightarrow> string" where
  "BigInt_toString2 n =
     (if n < 0 then CHR ''-'' # nat_toString2 (nat (- n)) else nat_toString2 (nat n))"

text \<open>The constants \<open>bits\<close>, \<open>bytes\<close> and \<open>mask\<close> of \<open>secureRandomIndex\<close>.\<close>

definition sampler_bits :: "int \<Rightarrow> nat" where
  "sampler_bits rng = length (BigInt_toString2 rng)"

definition sampler_bytes :: "nat \<Rightarrow> nat" where
  "sampler_bytes bits = nat \<lceil>rat_of_nat bits / 8\<rceil>"

definition sampler_mask :: "nat \<Rightarrow> int" where
  "sampler_mask bits = push_bit bits 1 - 1"

text \<open>The inner \<open>for\<close> loop: \<open>value = (value << 8) + buf[i]\<close> over the buffer.\<close>

definition buf_value :: "byte list \<Rightarrow> int" where
  "buf_value buf = foldl (\<lambda>v b. push_bit 8 v + uint b) 0 buf"

text \<open>
  The loop \<open>while (true)\<close>: draw, mask, return the value when it is below the range, draw
  again otherwise. Nothing bounds the number of rounds, so the loop is a partial function:
  \<open>None\<close> is the run that rejects every draw.
\<close>

partial_function (option) draw_loop ::
  "nat \<Rightarrow> int \<Rightarrow> int \<Rightarrow> byte stream \<Rightarrow> (int \<times> byte stream) option" where
  "draw_loop bytes msk rng s =
     (case randomBytes bytes s of
        (buf, s') \<Rightarrow>
          (let v = buf_value buf AND msk
           in if v < rng then Some (v, s') else draw_loop bytes msk rng s'))"

declare draw_loop.simps [code]

definition secureRandomIndex ::
  "int \<Rightarrow> byte stream \<Rightarrow> (error + int \<times> byte stream) option" where
  "secureRandomIndex mx s =
     (if mx < 0 then Some (Inl (Error ''max must be non-negative''))
      else if mx = 0 then Some (Inr (0, s))
      else
        (let rng = mx + 1;
             bits = sampler_bits rng;
             bytes = sampler_bytes bits;
             msk = sampler_mask bits
         in map_option Inr (draw_loop bytes msk rng s)))"

text \<open>
  The sampler as the specification words it: a buffer read as a big-endian integer, and
  the \<open>k\<close>-th draw for the bound \<open>mx\<close>: the \<open>k\<close>-th group of \<open>ceil(b / 8)\<close> bytes of the stream,
  reduced to its low \<open>b\<close> bits, where \<open>b\<close> is the bit width of \<open>mx + 1\<close>.
\<close>

primrec big_endian :: "byte list \<Rightarrow> int" where
  "big_endian [] = 0"
| "big_endian (b # bs) = uint b * 256 ^ length bs + big_endian bs"

definition masked_draw :: "int \<Rightarrow> byte stream \<Rightarrow> nat \<Rightarrow> int" where
  "masked_draw mx s k =
     (let bits = sampler_bits (mx + 1); bytes = sampler_bytes bits
      in big_endian (stake bytes (sdrop (k * bytes) s)) mod 2 ^ bits)"

section \<open>Strings and buffers\<close>

text \<open>
  A string is a list of characters, read as ASCII: the program's own texts, its
  command-line arguments and the lines typed at its prompts.
\<close>

text \<open>\<open>toUpperCase()\<close>.\<close>

definition char_toUpperCase :: "char \<Rightarrow> char" where
  "char_toUpperCase c =
     (case map_of (zip ''abcdefghijklmnopqrstuvwxyz'' ''ABCDEFGHIJKLMNOPQRSTUVWXYZ'') c of
        Some u \<Rightarrow> u
      | None \<Rightarrow> c)"

definition toUpperCase :: "string \<Rightarrow> string" where
  "toUpperCase s = map char_toUpperCase s"

text \<open>\<open>toString()\<close> of a Number that holds an integer: its decimal digits (the form
  JavaScript prints below \<open>10 ^ 21\<close>).\<close>

definition digit_char :: "nat \<Rightarrow> char" where
  "digit_char d = ''0123456789'' ! d"

fun nat_toString :: "nat \<Rightarrow> string" where
  "nat_toString n =
     (if n < 10 then [digit_char n] else nat_toString (n div 10) @ [digit_char (n mod 10)])"

declare nat_toString.simps [simp del]

definition Number_toString :: "int \<Rightarrow> string" where
  "Number_toString n =
     (if n < 0 then CHR ''-'' # nat_toString (nat (- n)) else nat_toString (nat n))"

text \<open>\<open>toString('hex')\<close> of a buffer: two lower-case hexadecimal digits for each byte.\<close>

definition hex_char :: "nat \<Rightarrow> char" where
  "hex_char d = ''0123456789abcdef'' ! d"

definition byte_hex :: "byte \<Rightarrow> string" where
  "byte_hex b = [hex_char (unat b div 16), hex_char (unat b mod 16)]"

definition Buffer_toString_hex :: "byte list \<Rightarrow> string" where
  "Buffer_toString_hex buf = concat (map byte_hex buf)"

text \<open>
  Reading a hexadecimal string back into bytes, as \<open>Buffer.from(text, 'hex')\<close> does, in
  either case of the letters. The program never does this; it is the step of an observer
  who checks a commitment from the revealed key.
\<close>

definition hex_value :: "char \<Rightarrow> nat" where
  "hex_value c =
     (case map_of (zip ''0123456789abcdefABCDEF''
                       [0, 1, 2, 3, 4, 5, 6, 7, 8, 9, 10, 11, 12, 13, 14, 15, 10, 11, 12, 13, 14, 15]) c of
        Some v \<Rightarrow> v
      | None \<Rightarrow> 0)"


section \<open>The commitment\<close>

text \<open>
  The part of the \<open>crypto\<close> module the commitment uses. \<open>getHashes\<close> lists the hash
  algorithms the runtime has. \<open>createHmac env algo key text\<close> stands for
  \<open>crypto.createHmac(algo, key).update(text).digest()\<close>: the digest bytes, or the error
  thrown for an algorithm the runtime lacks.
\<close>

record crypto_env =
  getHashes :: "string list"
  createHmac :: "string \<Rightarrow> byte list \<Rightarrow> string \<Rightarrow> error + byte list"

text \<open>\<open>SecureRandom.generateKey\<close> and \<open>SecureRandom.computeHMAC\<close>.\<close>

definition generateKey :: "byte stream \<Rightarrow> byte list \<times> byte stream" where
  "generateKey s = randomBytes 32 s"

definition hmac_algo :: "crypto_env \<Rightarrow> string" where
  "hmac_algo env = (if ''sha3-256'' \<in> set (getHashes env) then ''sha3-256'' else ''sha256'')"

definition computeHMAC :: "crypto_env \<Rightarrow> byte list \<Rightarrow> int \<Rightarrow> error + string" where
  "computeHMAC env k number =
     (let algo = hmac_algo env
      in case createHmac env algo k (Number_toString number) of
           Inl e \<Rightarrow> Inl e
         | Inr digest \<Rightarrow> Inr (toUpperCase (Buffer_toString_hex digest)))"

text \<open>Class \<open>FairRandomGenerator\<close>: its fields, its constructor and its methods.\<close>

record FairRandomGenerator =
  max' :: int
  key :: "byte list"
  computerNumber :: int
  hmac :: string

definition new_FairRandomGenerator ::
  "crypto_env \<Rightarrow> int \<Rightarrow> byte stream \<Rightarrow> (error + FairRandomGenerator \<times> byte stream) option" where
  "new_FairRandomGenerator env mx s =
     (case generateKey s of
        (k, s1) \<Rightarrow>
          (case secureRandomIndex mx s1 of
             None \<Rightarrow> None
           | Some (Inl e) \<Rightarrow> Some (Inl e)
           | Some (Inr (n, s2)) \<Rightarrow>
               (case computeHMAC env k n of
                  Inl e \<Rightarrow> Some (Inl e)
                | Inr h \<Rightarrow>
                    Some (Inr (\<lparr>max' = mx, key = k, computerNumber = n, hmac = h\<rparr>, s2)))))"

definition getHMAC :: "FairRandomGenerator \<Rightarrow> string" where
  "getHMAC g = hmac g"

definition computeResult :: "FairRandomGenerator \<Rightarrow> int \<Rightarrow> int option" where
  "computeResult g userNumber = js_rem (computerNumber g + userNumber) (max' g + 1)"

definition getKey :: "FairRandomGenerator \<Rightarrow> string" where
  "getKey g = toUpperCase (Buffer_toString_hex (key g))"

definition getComputerNumber :: "FairRandomGenerator \<Rightarrow> int" where
  "getComputerNumber g = computerNumber g"

text \<open>
  A runtime for worked examples. Its keyed hash is a stand-in, not a cryptographic one:
  the digest is the length of the algorithm's name followed by the key and the text.
\<close>

definition example_hmac :: "string \<Rightarrow> byte list \<Rightarrow> string \<Rightarrow> error + byte list" where
  "example_hmac algo k text = Inr (of_nat (length algo) # k @ map of_char text)"

definition example_env :: "string list \<Rightarrow> crypto_env" where
  "example_env hashes = \<lparr>getHashes = hashes, createHmac = example_hmac\<rparr>"

section \<open>Reading numbers\<close>

text \<open>
  \<open>Number(text)\<close> follows the grammar of numeric strings: white space around the literal
  is dropped, the empty string is 0, a literal is a signed decimal literal (digits, a
  decimal point, an exponent, or \<open>Infinity\<close>) or an unsigned binary, octal or hexadecimal
  integer, and everything else is NaN. The exact value of the literal is then rounded to
  the nearest double, ties to the even significand.
\<close>

definition is_whitespace :: "char \<Rightarrow> bool" where
  "is_whitespace c = (c \<in> set [CHR 0x09, CHR 0x0A, CHR 0x0B, CHR 0x0C, CHR 0x0D, CHR 0x20])"

text \<open>\<open>trim()\<close>.\<close>

definition js_trim :: "string \<Rightarrow> string" where
  "js_trim s = rev (dropWhile is_whitespace (rev (dropWhile is_whitespace s)))"

definition is_digit :: "char \<Rightarrow> bool" where
  "is_digit c = (c \<in> set ''0123456789'')"

definition is_radix_digit :: "nat \<Rightarrow> char \<Rightarrow> bool" where
  "is_radix_digit radix c = (c \<in> set ''0123456789abcdefABCDEF'' \<and> hex_value c < radix)"

definition digits_value :: "nat \<Rightarrow> string \<Rightarrow> int" where
  "digits_value radix ds = foldl (\<lambda>v c. int radix * v + int (hex_value c)) 0 ds"

definition all_digits :: "string \<Rightarrow> bool" where
  "all_digits ds = (ds \<noteq> [] \<and> list_all is_digit ds)"

definition pow10 :: "int \<Rightarrow> rat" where
  "pow10 e = (if 0 \<le> e then 10 ^ nat e else 1 / 10 ^ nat (- e))"

definition pow2 :: "int \<Rightarrow> rat" where
  "pow2 e = (if 0 \<le> e then 2 ^ nat e else 1 / 2 ^ nat (- e))"

text \<open>The exponent part that ends a decimal literal, \<open>None\<close> when the text is no such
  part; the empty text is the exponent 0.\<close>

definition exponent_part :: "string \<Rightarrow> int option" where
  "exponent_part s =
     (case s of
        [] \<Rightarrow> Some 0
      | c # t \<Rightarrow>
          if c \<in> set ''eE'' then
            (case t of
               [] \<Rightarrow> None
             | d # u \<Rightarrow>
                 if d = CHR ''+'' then
                   (if all_digits u then Some (digits_value 10 u) else None)
                 else if d = CHR ''-'' then
                   (if all_digits u then Some (- digits_value 10 u) else None)
                 else if all_digits t then Some (digits_value 10 t) else None)
          else None)"

text \<open>An unsigned decimal literal: \<open>Infinity\<close>, digits with an optional fraction, or a
  fraction alone, each with an optional exponent.\<close>

definition unsigned_decimal_literal :: "string \<Rightarrow> jsnum" where
  "unsigned_decimal_literal s =
     (if s = ''Infinity'' then PosInf
      else
        (let ip = takeWhile is_digit s; r = dropWhile is_digit s
         in case r of
              [] \<Rightarrow> if ip = [] then NaN else Fin (of_int (digits_value 10 ip))
            | c # t \<Rightarrow>
                if c = CHR ''.'' then
                  (let fp = takeWhile is_digit t; r' = dropWhile is_digit t
                   in if ip = [] \<and> fp = [] then NaN
                      else
                        (case exponent_part r' of
                           None \<Rightarrow> NaN
                         | Some e \<Rightarrow>
                             Fin ((of_int (digits_value 10 ip)
                                   + of_int (digits_value 10 fp) / 10 ^ length fp) * pow10 e)))
                else if ip = [] then NaN
                else
                  (case exponent_part r of
                     None \<Rightarrow> NaN
                   | Some e \<Rightarrow> Fin (of_int (digits_value 10 ip) * pow10 e))))"

fun jsnum_negate :: "jsnum \<Rightarrow> jsnum" where
  "jsnum_negate NaN = NaN"
| "jsnum_negate PosInf = NegInf"
| "jsnum_negate NegInf = PosInf"
| "jsnum_negate (Fin r) = Fin (- r)"

definition decimal_literal :: "string \<Rightarrow> jsnum" where
  "decimal_literal s =
     (case s of
        [] \<Rightarrow> NaN
      | c # t \<Rightarrow>
          if c = CHR ''+'' then unsigned_decimal_literal t
          else if c = CHR ''-'' then jsnum_negate (unsigned_decimal_literal t)
          else unsigned_decimal_literal s)"

text \<open>A binary, octal or hexadecimal integer literal; \<open>None\<close> when the text has no
  such prefix.\<close>

definition non_decimal_literal :: "string \<Rightarrow> jsnum option" where
  "non_decimal_literal s =
     (case s of
        c # p # ds \<Rightarrow>
          if c = CHR ''0'' \<and> p \<in> set ''bBoOxX'' then
            (let radix = (if p \<in> set ''bB'' then 2 else if p \<in> set ''oO'' then 8 else 16)
             in if ds \<noteq> [] \<and> list_all (is_radix_digit radix) ds
                then Some (Fin (of_int (digits_value radix ds)))
                else Some NaN)
          else None
      | _ \<Rightarrow> None)"

text \<open>Rounding an exact value to a double.\<close>

definition round_half_even :: "rat \<Rightarrow> int" where
  "round_half_even q =
     (let f = \<lfloor>q\<rfloor>; d = q - of_int f
      in if d < 1 / 2 then f
         else if 1 / 2 < d then f + 1
         else if even f then f else f + 1)"

text \<open>The number of binary digits of a positive integer.\<close>

function bit_length :: "int \<Rightarrow> nat" where
  "bit_length n = (if n \<le> 0 then 0 else Suc (bit_length (n div 2)))"
  by pat_completeness auto
termination
  by (relation "measure nat") auto

declare bit_length.simps [simp del]

text \<open>The binary exponent of a positive rational \<open>a\<close>: the \<open>e\<close> with
  \<open>2 ^ e \<le> a < 2 ^ (e + 1)\<close>, from the bit lengths of numerator and denominator.\<close>

definition floor_log2 :: "rat \<Rightarrow> int" where
  "floor_log2 a =
     (case quotient_of a of
        (p, q) \<Rightarrow>
          (let d = int (bit_length p) - int (bit_length q)
           in if pow2 d \<le> a then d else d - 1))"

definition round_double :: "rat \<Rightarrow> jsnum" where
  "round_double x =
     (if x = 0 then Fin 0
      else
        (let a = \<bar>x\<bar>
         in if 2 ^ 1024 - 2 ^ 970 \<le> a then (if 0 < x then PosInf else NegInf)
            else
              (let e = max (floor_log2 a) (- 1022);
                   ulp = pow2 (e - 52);
                   n = round_half_even (a / ulp)
               in Fin (sgn x * of_int n * ulp))))"

fun to_double :: "jsnum \<Rightarrow> jsnum" where
  "to_double (Fin r) = round_double r"
| "to_double x = x"

text \<open>\<open>Number(text)\<close>.\<close>

definition StringToNumber :: "string \<Rightarrow> jsnum" where
  "StringToNumber s =
     (let t = js_trim s
      in if t = [] then Fin 0
         else
           (case non_decimal_literal t of
              Some v \<Rightarrow> to_double v
            | None \<Rightarrow> to_double (decimal_literal t)))"

text \<open>\<open>Number.isInteger\<close>, and the integer a Number holds when it is one.\<close>

fun Number_isInteger :: "jsnum \<Rightarrow> bool" where
  "Number_isInteger (Fin r) = (r = of_int \<lfloor>r\<rfloor>)"
| "Number_isInteger _ = False"

fun integer_of :: "jsnum \<Rightarrow> int" where
  "integer_of (Fin r) = \<lfloor>r\<rfloor>"
| "integer_of _ = 0"

section \<open>Parsing the dice\<close>

text \<open>
  The repository holds two programs: \<open>src/unnamed/part_000\<close>, which runs the
  commit-reveal protocol, and \<open>src/dice.js\<close>, which plays the same game without it.
  Classes \<open>Dice\<close> and \<open>ProbabilityCalculator\<close> are the same text in both. Where the two
  differ, the definitions named \<open>dice_js_...\<close> embed \<open>src/dice.js\<close> and the others
  \<open>src/unnamed/part_000\<close>.
\<close>

text \<open>\<open>split(',')\<close>: the pieces between the commas; never an empty array.\<close>

fun split_comma :: "string \<Rightarrow> string list" where
  "split_comma [] = [[]]"
| "split_comma (c # cs) =
     (if c = CHR '','' then [] # split_comma cs
      else (case split_comma cs of [] \<Rightarrow> [[c]] | p # ps \<Rightarrow> (c # p) # ps))"

text \<open>\<open>parts.map(...)\<close>: the callback converts the pieces from left to right and throws
  at the first that is not an integer.\<close>

fun parse_faces :: "string list \<Rightarrow> error + int list" where
  "parse_faces [] = Inr []"
| "parse_faces (numStr # rest) =
     (let num = StringToNumber numStr
      in if \<not> Number_isInteger num then Inl (Error (''Not a number: '' @ numStr))
         else (case parse_faces rest of
                 Inl e \<Rightarrow> Inl e
               | Inr fs \<Rightarrow> Inr (integer_of num # fs)))"

text \<open>The loop \<open>for (const arg of args)\<close> of \<open>src/unnamed/part_000\<close>, with the array
  \<open>dice\<close> it fills.\<close>

fun parse_args :: "string list \<Rightarrow> dice list \<Rightarrow> error + dice list" where
  "parse_args [] dice = Inr dice"
| "parse_args (arg # rest) dice =
     (let parts = split_comma arg
      in if length parts = 0 then Inl (Error ''Each die needs at least one face!'')
         else (case parse_faces parts of
                 Inl e \<Rightarrow> Inl e
               | Inr fs \<Rightarrow> parse_args rest (dice @ [new_Dice fs])))"

definition too_few_dice :: error where
  "too_few_dice =
     Error (''You need at least 3 dice. Example: node dice_game.js ''
            @ ''2,2,4,4,9,9 6,8,1,1,8,6 7,5,3,7,5,3'')"

definition parseDice :: "string list \<Rightarrow> error + dice list" where
  "parseDice args = (if length args < 3 then Inl too_few_dice else parse_args args [])"

text \<open>The same loop in \<open>src/dice.js\<close>, which has no check of \<open>parts.length\<close>.\<close>

fun dice_js_parse_args :: "string list \<Rightarrow> dice list \<Rightarrow> error + dice list" where
  "dice_js_parse_args [] dice = Inr dice"
| "dice_js_parse_args (arg # rest) dice =
     (let parts = split_comma arg
      in case parse_faces parts of
           Inl e \<Rightarrow> Inl e
         | Inr fs \<Rightarrow> dice_js_parse_args rest (dice @ [new_Dice fs]))"

definition dice_js_parseDice :: "string list \<Rightarrow> error + dice list" where
  "dice_js_parseDice args =
     (if length args < 3 then Inl too_few_dice else dice_js_parse_args args [])"

text \<open>
  A face token as the specification words it, an integer: an optional minus sign and one
  or more decimal digits.
\<close>

definition integer_token :: "string \<Rightarrow> bool" where
  "integer_token t =
     (case t of
        [] \<Rightarrow> False
      | c # ds \<Rightarrow> if c = CHR ''-'' then all_digits ds else all_digits t)"

definition token_value :: "string \<Rightarrow> int" where
  "token_value t =
     (case t of
        [] \<Rightarrow> 0
      | c # ds \<Rightarrow> if c = CHR ''-'' then - digits_value 10 ds else digits_value 10 t)"




section \<open>The console\<close>

text \<open>
  What the program prints. \<open>Line\<close> is a \<open>console.log\<close> of a text and \<open>Prompt\<close> the question
  \<open>Your choice:\<close> of the line reader. The lines that report the outcome of a match carry
  their values: \<open>YourRoll v\<close> is \<open>'Your roll: ' + v\<close>, \<open>ComputerRoll v\<close> is
  \<open>'Computer roll: ' + v\<close>, \<open>YouWin u c\<close> is \<open>You win! (u > c)\<close>, \<open>ComputerWins c u\<close> is
  \<open>Computer wins! (c > u)\<close>, \<open>Tie u c\<close> is \<open>It's a tie! (u = c)\<close>, and \<open>Table\<close> is the rendered
  table of win chances, held as its matrix of entries, \<open>None\<close> for the dash on the diagonal.
\<close>

datatype event =
    Line string
  | Prompt
  | YourRoll jsval
  | ComputerRoll jsval
  | YouWin jsval jsval
  | ComputerWins jsval jsval
  | Tie jsval jsval
  | Table "jsnum option list list"

text \<open>
  The world around a run: the stream of random bytes, the stream that answers
  \<open>crypto.randomInt\<close>, the lines the user is going to type, and what has been printed.
\<close>

record world =
  entropy :: "byte stream"
  randomInts :: "nat stream"
  stdin :: "string list"
  stdout :: "event list"

text \<open>
  A step of the program ends with a value, throws, or waits for a line that never comes
  (\<open>Pending\<close>); \<open>None\<close> is the step that never ends, the sampler rejecting every draw.
\<close>

datatype 'a outcome = Return 'a | Throw error | Pending

type_synonym 'a io = "world \<Rightarrow> ('a outcome \<times> world) option"

definition io_return :: "'a \<Rightarrow> 'a io" where
  "io_return x w = Some (Return x, w)"

definition io_bind :: "'a io \<Rightarrow> ('a \<Rightarrow> 'b io) \<Rightarrow> 'b io" where
  "io_bind m f w =
     (case m w of
        None \<Rightarrow> None
      | Some (Return x, w') \<Rightarrow> f x w'
      | Some (Throw e, w') \<Rightarrow> Some (Throw e, w')
      | Some (Pending, w') \<Rightarrow> Some (Pending, w'))"

text \<open>Printing, then going on.\<close>

definition say :: "event list \<Rightarrow> 'a io \<Rightarrow> 'a io" where
  "say es k w = k (w\<lparr>stdout := stdout w @ es\<rparr>)"

text \<open>\<open>join(',')\<close> of an array of integers.\<close>

fun join_comma :: "string list \<Rightarrow> string" where
  "join_comma [] = []"
| "join_comma [x] = x"
| "join_comma (x # y # ys) = x @ '','' @ join_comma (y # ys)"

definition faces_text :: "dice \<Rightarrow> string" where
  "faces_text d = ''['' @ join_comma (map Number_toString (faces d)) @ '']''"

text \<open>\<open>showOptions(max)\<close>.\<close>

definition showOptions :: "int \<Rightarrow> event list" where
  "showOptions mx =
     map (\<lambda>i. Line (Number_toString (int i) @ '' - '' @ Number_toString (int i)))
       [0 ..< nat (mx + 1)]
     @ [Line ''X - exit'', Line ''? - help'']"

section \<open>Asking the user\<close>

text \<open>
  \<open>getUserInputStatic(max)\<close>: ask until the answer is the exit token, which gives \<open>null\<close>
  (\<open>None\<close>), or an integer between 0 and \<open>max\<close>. The answer is trimmed, put in upper case
  and, unless it is \<open>X\<close> or \<open>?\<close>, converted with \<open>Number\<close>. The two programs differ in the
  help text only, which is a parameter.
\<close>

definition pick_between :: "int \<Rightarrow> string" where
  "pick_between mx =
     ''Pick a number between 0 and '' @ Number_toString mx @ '', X to exit, or ? for help.''"

fun prompt_loop ::
  "string \<Rightarrow> int \<Rightarrow> string list \<Rightarrow> event list
     \<Rightarrow> int option outcome \<times> string list \<times> event list" where
  "prompt_loop helpText mx [] out = (Pending, [], out @ [Prompt])"
| "prompt_loop helpText mx (inputRaw # rest) out =
     (let input = toUpperCase (js_trim inputRaw)
      in if input = ''X'' then (Return None, rest, out @ [Prompt, Line ''Game cancelled.''])
         else if input = ''?'' then prompt_loop helpText mx rest (out @ [Prompt, Line helpText])
         else
           (let num = StringToNumber input
            in if \<not> Number_isInteger num \<or> integer_of num < 0 \<or> mx < integer_of num
               then prompt_loop helpText mx rest (out @ [Prompt, Line (pick_between mx)])
               else (Return (Some (integer_of num)), rest, out @ [Prompt])))"

declare prompt_loop.simps [simp del]

definition ask :: "string \<Rightarrow> int \<Rightarrow> int option io" where
  "ask helpText mx w =
     (case prompt_loop helpText mx (stdin w) (stdout w) of
        (r, rest, out) \<Rightarrow> Some (r, w\<lparr>stdin := rest, stdout := out\<rparr>))"

definition getUserInputStatic :: "int \<Rightarrow> int option io" where
  "getUserInputStatic mx = ask ''Type 0 or 1 to choose, X to exit.'' mx"

definition getUserInput :: "int \<Rightarrow> int option io" where
  "getUserInput mx = getUserInputStatic mx"

section \<open>The match of \<open>src/unnamed/part_000\<close>\<close>

text \<open>\<open>new FairRandomGenerator(max)\<close> and \<open>secureRandomIndex(max)\<close> on the world's bytes.\<close>

definition create_generator :: "crypto_env \<Rightarrow> int \<Rightarrow> FairRandomGenerator io" where
  "create_generator env mx w =
     (case new_FairRandomGenerator env mx (entropy w) of
        None \<Rightarrow> None
      | Some (Inl e) \<Rightarrow> Some (Throw e, w)
      | Some (Inr (g, s)) \<Rightarrow> Some (Return g, w\<lparr>entropy := s\<rparr>))"

definition sample :: "int \<Rightarrow> int io" where
  "sample mx w =
     (case secureRandomIndex mx (entropy w) of
        None \<Rightarrow> None
      | Some (Inl e) \<Rightarrow> Some (Throw e, w)
      | Some (Inr (n, s)) \<Rightarrow> Some (Return n, w\<lparr>entropy := s\<rparr>))"

text \<open>The lines of a round: the digest shown before the user answers, and the reveal
  and the arithmetic shown after.\<close>

definition reveal_line :: "FairRandomGenerator \<Rightarrow> string" where
  "reveal_line g =
     ''Reveal: Computer number = '' @ Number_toString (getComputerNumber g)
     @ '' (Key: '' @ getKey g @ '')''"

definition result_text :: "int option \<Rightarrow> string" where
  "result_text r = (case r of None \<Rightarrow> ''NaN'' | Some n \<Rightarrow> Number_toString n)"

definition computed_line :: "FairRandomGenerator \<Rightarrow> int \<Rightarrow> int \<Rightarrow> int option \<Rightarrow> string" where
  "computed_line g userNumber m r =
     ''Computed result = (computer + user) % '' @ Number_toString m
     @ '' = ('' @ Number_toString (getComputerNumber g) @ '' + '' @ Number_toString userNumber
     @ '') % '' @ Number_toString m @ '' = '' @ result_text r"

text \<open>\<open>CoinFlip.decideFirstPlayer\<close>: \<open>Some True\<close> when the computer picks first, \<open>None\<close> for
  \<open>null\<close>.\<close>

definition decideFirstPlayer :: "crypto_env \<Rightarrow> bool option io" where
  "decideFirstPlayer env =
     say [Line ''Let's decide who picks first with a provably fair coin flip.'']
      (io_bind (create_generator env 1) (\<lambda>generator.
       say [Line (''Computer has chosen (hidden). HMAC: '' @ getHMAC generator),
            Line ''You pick 0 or 1:'', Line ''0 - 0'', Line ''1 - 1'',
            Line ''X - exit'', Line ''? - help'']
        (io_bind (getUserInputStatic 1) (\<lambda>userChoice.
           case userChoice of
             None \<Rightarrow> io_return None
           | Some u \<Rightarrow>
               (let result = js_rem (getComputerNumber generator + u) 2;
                    computerFirst = (result = Some 0)
                in say [Line (reveal_line generator),
                        Line (computed_line generator u 2 result),
                        Line (if computerFirst then ''Computer picks first!''
                              else ''You pick first!'')]
                    (io_return (Some computerFirst)))))))"

text \<open>Class \<open>Game\<close>.\<close>

record game =
  dice :: "dice list"
  computerDie :: "dice option"
  userDie :: "dice option"

definition new_Game :: "dice list \<Rightarrow> game" where
  "new_Game ds = \<lparr>dice = ds, computerDie = None, userDie = None\<rparr>"

text \<open>Reading \<open>this.dice[i]\<close> and then a field of the die: outside the array the die is
  \<open>undefined\<close> and reading its field throws a \<open>TypeError\<close>.\<close>

definition undefined_die :: error where
  "undefined_die = Error ''Cannot read properties of undefined (reading 'faces')''"

definition die_at :: "game \<Rightarrow> int \<Rightarrow> dice io" where
  "die_at g i =
     (if 0 \<le> i \<and> nat i < length (dice g) then io_return (dice g ! nat i)
      else (\<lambda>w. Some (Throw undefined_die, w)))"

text \<open>The computer's pick in \<open>run\<close>.\<close>

definition computer_picks :: "game \<Rightarrow> game io" where
  "computer_picks g =
     io_bind (sample (int (length (dice g)) - 1)) (\<lambda>i.
     io_bind (die_at g i) (\<lambda>d.
     say [Line (''Computer picks die: '' @ faces_text d)]
      (io_return (g\<lparr>computerDie := Some d\<rparr>))))"

definition die_menu :: "game \<Rightarrow> event list" where
  "die_menu g =
     Line ''Pick your die:''
     # map (\<lambda>i. Line (Number_toString (int i) @ '' - '' @ faces_text (dice g ! i)))
         [0 ..< length (dice g)]
     @ [Line ''X - exit'', Line ''? - help'']"

definition selectUserDie :: "game \<Rightarrow> game io" where
  "selectUserDie g =
     say (die_menu g)
      (io_bind (getUserInput (int (length (dice g)) - 1)) (\<lambda>choice.
         case choice of
           None \<Rightarrow> io_return g
         | Some c \<Rightarrow>
             io_bind (die_at g c) (\<lambda>d.
             say [Line (''You picked: '' @ faces_text d)]
              (io_return (g\<lparr>userDie := Some d\<rparr>)))))"

text \<open>
  The two rolls. Each makes a generator of its own for \<open>numFaces - 1\<close>, shows its digest,
  asks the user for a number, and returns the face at the combined result, or \<open>null\<close> when
  the user leaves.
\<close>

definition newline :: string where
  "newline = [CHR 0x0A]"

definition roll_lines :: "string \<Rightarrow> FairRandomGenerator \<Rightarrow> dice \<Rightarrow> event list" where
  "roll_lines intro generator d =
     [Line (intro @ getHMAC generator @ '' (mod '' @ Number_toString (int (numFaces d)) @ '')''),
      Line (''Add your number (mod '' @ Number_toString (int (numFaces d)) @ ''):'')]
     @ showOptions (int (numFaces d) - 1)"

definition face_at :: "dice \<Rightarrow> int option \<Rightarrow> jsval" where
  "face_at d r = (case r of None \<Rightarrow> JUndefined | Some i \<Rightarrow> getFace d i)"

definition roll :: "crypto_env \<Rightarrow> string \<Rightarrow> string \<Rightarrow> dice \<Rightarrow> jsval io" where
  "roll env title intro d =
     say [Line (newline @ title)]
      (io_bind (create_generator env (int (numFaces d) - 1)) (\<lambda>generator.
       say (roll_lines intro generator d)
        (io_bind (getUserInput (int (numFaces d) - 1)) (\<lambda>userNumber.
           case userNumber of
             None \<Rightarrow> io_return JNull
           | Some u \<Rightarrow>
               (let result = computeResult generator u
                in say [Line (reveal_line generator),
                        Line (computed_line generator u (int (numFaces d)) result)]
                    (io_return (face_at d result)))))))"

definition computerRoll :: "crypto_env \<Rightarrow> game \<Rightarrow> jsval io" where
  "computerRoll env g =
     (case computerDie g of
        None \<Rightarrow> (\<lambda>w. Some (Throw undefined_die, w))
      | Some d \<Rightarrow> roll env ''Computer rolling:'' ''Computer has hidden number. HMAC: '' d)"

definition userRoll :: "crypto_env \<Rightarrow> game \<Rightarrow> jsval io" where
  "userRoll env g =
     (case userDie g of
        None \<Rightarrow> (\<lambda>w. Some (Throw undefined_die, w))
      | Some d \<Rightarrow>
          roll env ''Your rolling:'' ''Computer (hidden) number for your roll. HMAC: '' d)"

text \<open>\<open>generateProbabilityTable\<close>, as the matrix of its entries.\<close>

definition generateProbabilityTable :: "dice list \<Rightarrow> jsnum option list list" where
  "generateProbabilityTable ds =
     map (\<lambda>i. map (\<lambda>j. if i = j then None else Some (winProbability (ds ! i) (ds ! j)))
                 [0 ..< length ds])
       [0 ..< length ds]"

text \<open>The end of \<open>run\<close>: the two rolls are printed and compared, then the table.\<close>

definition verdict :: "jsval \<Rightarrow> jsval \<Rightarrow> event" where
  "verdict userRollFace computerRollFace =
     (if js_gt userRollFace computerRollFace then YouWin userRollFace computerRollFace
      else if js_gt computerRollFace userRollFace then ComputerWins computerRollFace userRollFace
      else Tie userRollFace computerRollFace)"

definition report :: "game \<Rightarrow> jsval \<Rightarrow> jsval \<Rightarrow> event list" where
  "report g userRollFace computerRollFace =
     [YourRoll userRollFace, ComputerRoll computerRollFace,
      verdict userRollFace computerRollFace,
      Line (newline @ ''Pairwise win probability table:''),
      Table (generateProbabilityTable (dice g))]"

text \<open>\<open>Game.run\<close>.\<close>

definition pick_dice :: "bool \<Rightarrow> game \<Rightarrow> game io" where
  "pick_dice computerFirst g =
     (if computerFirst then io_bind (computer_picks g) selectUserDie
      else io_bind (selectUserDie g) computer_picks)"

definition run :: "crypto_env \<Rightarrow> game \<Rightarrow> unit io" where
  "run env g =
     io_bind (decideFirstPlayer env) (\<lambda>first.
       case first of
         None \<Rightarrow> io_return ()
       | Some computerFirst \<Rightarrow>
           io_bind (pick_dice computerFirst g) (\<lambda>g'.
             if userDie g' = None \<or> computerDie g' = None then io_return ()
             else
               io_bind (computerRoll env g') (\<lambda>computerRollFace.
                 if computerRollFace = JNull then io_return ()
                 else
                   io_bind (userRoll env g') (\<lambda>userRollFace.
                     if userRollFace = JNull then io_return ()
                     else say (report g' userRollFace computerRollFace) (io_return ())))))"

text \<open>\<open>main\<close>: an error thrown on the way is caught and printed.\<close>

definition catch_error :: "unit io \<Rightarrow> unit io" where
  "catch_error m w =
     (case m w of
        Some (Throw (Error msg), w') \<Rightarrow>
          Some (Return (), w'\<lparr>stdout := stdout w' @ [Line (''Error: '' @ msg)]\<rparr>)
      | r \<Rightarrow> r)"

definition main :: "crypto_env \<Rightarrow> string list \<Rightarrow> unit io" where
  "main env argv =
     catch_error
       (case parseDice argv of
          Inl e \<Rightarrow> (\<lambda>w. Some (Throw e, w))
        | Inr ds \<Rightarrow> run env (new_Game ds))"

section \<open>The match of \<open>src/dice.js\<close>\<close>

text \<open>
  \<open>crypto.randomInt(min, max)\<close> is a library function that returns an integer from \<open>min\<close>
  up to, not including, \<open>max\<close>, and throws when there is none. Its answers come from the
  world's stream of naturals, each reduced into the interval asked for.
\<close>

definition randomInt :: "int \<Rightarrow> int \<Rightarrow> int io" where
  "randomInt lo hi w =
     (if hi \<le> lo then Some (Throw (Error ''The value of max is out of range.''), w)
      else Some (Return (lo + int (shd (randomInts w)) mod (hi - lo)),
                 w\<lparr>randomInts := stl (randomInts w)\<rparr>))"

definition dice_js_getUserInput :: "int \<Rightarrow> int option io" where
  "dice_js_getUserInput mx =
     ask (''Type a number from 0 to '' @ Number_toString mx @ '', or X to exit.'') mx"

definition pickRandomDie :: "game \<Rightarrow> dice io" where
  "pickRandomDie g = io_bind (randomInt 0 (int (length (dice g)))) (die_at g)"

definition dice_js_computer_picks :: "game \<Rightarrow> game io" where
  "dice_js_computer_picks g =
     io_bind (pickRandomDie g) (\<lambda>d.
     say [Line (''Computer picks die: '' @ faces_text d)]
      (io_return (g\<lparr>computerDie := Some d\<rparr>)))"

definition dice_js_selectUserDie :: "game \<Rightarrow> game io" where
  "dice_js_selectUserDie g =
     say (die_menu g)
      (io_bind (dice_js_getUserInput (int (length (dice g)) - 1)) (\<lambda>choice.
         case choice of
           None \<Rightarrow> io_return g
         | Some c \<Rightarrow>
             io_bind (die_at g c) (\<lambda>d.
             say [Line (''You picked: '' @ faces_text d)]
              (io_return (g\<lparr>userDie := Some d\<rparr>)))))"

text \<open>The rolls of \<open>src/dice.js\<close>: the computer's face is at a random index, the user's at
  the index the user types.\<close>

definition dice_js_computerRoll :: "game \<Rightarrow> jsval io" where
  "dice_js_computerRoll g =
     (case computerDie g of
        None \<Rightarrow> (\<lambda>w. Some (Throw undefined_die, w))
      | Some d \<Rightarrow>
          io_bind (randomInt 0 (int (numFaces d))) (\<lambda>rollIndex.
          io_return (getFace d rollIndex)))"

definition dice_js_userRoll :: "game \<Rightarrow> jsval io" where
  "dice_js_userRoll g =
     (case userDie g of
        None \<Rightarrow> (\<lambda>w. Some (Throw undefined_die, w))
      | Some d \<Rightarrow>
          say (Line (newline @ ''Your rolling:'') # showOptions (int (numFaces d) - 1))
           (io_bind (dice_js_getUserInput (int (numFaces d) - 1)) (\<lambda>userIndex.
              case userIndex of
                None \<Rightarrow> io_return JNull
              | Some i \<Rightarrow> io_return (getFace d i))))"

definition dice_js_pick_dice :: "bool \<Rightarrow> game \<Rightarrow> game io" where
  "dice_js_pick_dice computerFirst g =
     (if computerFirst then io_bind (dice_js_computer_picks g) dice_js_selectUserDie
      else io_bind (dice_js_selectUserDie g) dice_js_computer_picks)"

text \<open>\<open>Game.run\<close> of \<open>src/dice.js\<close>: after the two rolls it goes on to the report without
  looking at what \<open>userRoll\<close> returned.\<close>

definition dice_js_run :: "game \<Rightarrow> unit io" where
  "dice_js_run g =
     io_bind (randomInt 0 2) (\<lambda>r.
       (let computerFirst = (r = 0)
        in say [Line (if computerFirst then ''Computer picks first!'' else ''You pick first!'')]
            (io_bind (dice_js_pick_dice computerFirst g) (\<lambda>g'.
               if userDie g' = None \<or> computerDie g' = None then io_return ()
               else
                 io_bind (dice_js_computerRoll g') (\<lambda>computerRollFace.
                 io_bind (dice_js_userRoll g') (\<lambda>userRollFace.
                 say (report g' userRollFace computerRollFace) (io_return ())))))))"

definition dice_js_main :: "string list \<Rightarrow> unit io" where
  "dice_js_main argv =
     catch_error
       (case dice_js_parseDice argv of
          Inl e \<Rightarrow> (\<lambda>w. Some (Throw e, w))
        | Inr ds \<Rightarrow> dice_js_run (new_Game ds))"

section \<open>Worked examples\<close>

text \<open>The classic set of three dice, a game in which both sides hold the die \<open>[1, 2]\<close>,
  and a world whose user types \<open>1\<close>.\<close>

definition classic :: "dice list" where
  "classic =
     [new_Dice [2, 2, 4, 4, 9, 9], new_Dice [1, 1, 6, 6, 8, 8], new_Dice [3, 3, 5, 5, 7, 7]]"



section \<open>What a transcript shows\<close>

text \<open>
  The lines that \<open>run\<close> prints only at the end of a match (the two rolls, the verdict and
  the table) are its result events; \<open>Game cancelled.\<close> is the line of the exit token. A
  computation \<open>stops_quietly\<close> when every transcript of it that holds the cancellation line
  holds no result event. \<open>step m post cont\<close> describes one stage \<open>m\<close> of a match: it prints
  no result event, its value satisfies \<open>post\<close>, and when the value tells the match to go on
  (\<open>cont\<close>) the stage has not printed the cancellation line.
\<close>

fun result_event :: "event \<Rightarrow> bool" where
  "result_event (Line t) = False"
| "result_event Prompt = False"
| "result_event (YourRoll v) = True"
| "result_event (ComputerRoll v) = True"
| "result_event (YouWin u c) = True"
| "result_event (ComputerWins c u) = True"
| "result_event (Tie u c) = True"
| "result_event (Table m) = True"

definition cancelled :: event where
  "cancelled = Line ''Game cancelled.''"

definition quiet :: "event list \<Rightarrow> bool" where
  "quiet es = (\<not> list_ex result_event es)"

definition plain :: "event list \<Rightarrow> bool" where
  "plain es = (quiet es \<and> cancelled \<notin> set es)"

definition step :: "'a io \<Rightarrow> ('a \<Rightarrow> bool) \<Rightarrow> ('a \<Rightarrow> bool) \<Rightarrow> bool" where
  "step m post cont =
     (\<forall>w r w'. m w = Some (r, w') \<longrightarrow>
        (\<exists>es. stdout w' = stdout w @ es \<and> quiet es
              \<and> (\<forall>x. r = Return x \<longrightarrow> post x \<and> (cont x \<longrightarrow> cancelled \<notin> set es))))"

definition stops_quietly :: "'a io \<Rightarrow> bool" where
  "stops_quietly m =
     (\<forall>w r w'. m w = Some (r, w') \<longrightarrow>
        (\<exists>es. stdout w' = stdout w @ es \<and> (cancelled \<in> set es \<longrightarrow> quiet es)))"

section \<open>Properties of the win probability\<close>



















text \<open>
  Claim C10. \<open>winProbability\<close> needs no invariant on its arguments: when one of the two
  dice has no face, so that \<open>a.numFaces * b.numFaces\<close> is 0, the guard \<open>total > 0\<close> fails
  and the result is the number 0; the quotient \<open>0 / 0\<close>, which is NaN, is never formed.
\<close>

theorem winProbability_zero_faces:
  "numFaces a * numFaces b = 0 \<Longrightarrow> winProbability a b = Fin 0"
  by (auto simp: winProbability_def)

theorem winProbability_zero_faces_witness:
  "numFaces (new_Dice []) * numFaces (new_Dice [1, 2]) = 0
   \<and> winProbability (new_Dice []) (new_Dice [1, 2]) = Fin 0
   \<and> js_div 0 0 = NaN"
proof -
  have h: "numFaces (new_Dice []) * numFaces (new_Dice [1, 2]) = 0"
    by (simp add: new_Dice_def)
  show ?thesis using h winProbability_zero_faces[OF h] by (simp add: js_div_def)
qed

section \<open>The classic dice\<close>

text \<open>The classic set is non-transitive: die 0 beats die 1, die 1 beats die 2 and die 2
  beats die 0, each with probability \<open>5/9\<close>.\<close>

theorem winProbability_classic_cycle:
  "winProbability (classic ! 0) (classic ! 1) = Fin (5 / 9)
   \<and> winProbability (classic ! 1) (classic ! 2) = Fin (5 / 9)
   \<and> winProbability (classic ! 2) (classic ! 0) = Fin (5 / 9)"
  by code_simp

section \<open>Properties of the sampler\<close>

lemma sdrop_chunk: "sdrop (j * bytes) (sdrop bytes s) = sdrop (Suc j * bytes) s"
  by simp

lemma draw_loop_first:
  assumes "\<forall>j<k. \<not> (buf_value (stake bytes (sdrop (j * bytes) s)) AND msk) < rng"
      and "(buf_value (stake bytes (sdrop (k * bytes) s)) AND msk) < rng"
  shows "draw_loop bytes msk rng s =
           Some (buf_value (stake bytes (sdrop (k * bytes) s)) AND msk, sdrop (Suc k * bytes) s)"
  using assms
proof (induction k arbitrary: s)
  case 0
  then show ?case by (subst draw_loop.simps) (simp add: randomBytes_def)
next
  case (Suc k)
  have rej: "\<not> (buf_value (stake bytes s) AND msk) < rng"
    using Suc.prems(1)[rule_format, of 0] by simp
  have ih: "draw_loop bytes msk rng (sdrop bytes s) =
          Some (buf_value (stake bytes (sdrop (k * bytes) (sdrop bytes s))) AND msk,
                sdrop (Suc k * bytes) (sdrop bytes s))"
  proof (rule Suc.IH)
    show "\<forall>j<k. \<not> (buf_value (stake bytes (sdrop (j * bytes) (sdrop bytes s))) AND msk) < rng"
    proof (intro allI impI)
      fix j assume "j < k"
      then have "Suc j < Suc k" by simp
      from Suc.prems(1)[rule_format, OF this]
      show "\<not> (buf_value (stake bytes (sdrop (j * bytes) (sdrop bytes s))) AND msk) < rng"
        unfolding sdrop_chunk .
    qed
    show "(buf_value (stake bytes (sdrop (k * bytes) (sdrop bytes s))) AND msk) < rng"
      using Suc.prems(2) unfolding sdrop_chunk .
  qed
  have step: "draw_loop bytes msk rng s = draw_loop bytes msk rng (sdrop bytes s)"
    using rej by (subst draw_loop.simps) (simp add: randomBytes_def)
  show ?case
    unfolding step ih sdrop_chunk ..
qed


lemma foldl_buf_value:
  "foldl (\<lambda>v b. push_bit 8 v + uint b) v0 buf = v0 * 256 ^ length buf + big_endian buf"
proof (induction buf arbitrary: v0)
  case Nil
  then show ?case by simp
next
  case (Cons b bs)
  have "foldl (\<lambda>v b. push_bit 8 v + uint b) (push_bit 8 v0 + uint b) bs =
          (push_bit 8 v0 + uint b) * 256 ^ length bs + big_endian bs"
    by (rule Cons.IH)
  then show ?case
    by (simp add: push_bit_eq_mult algebra_simps)
qed

lemma buf_value_big_endian: "buf_value buf = big_endian buf"
  by (simp add: buf_value_def foldl_buf_value)

lemma and_sampler_mask: "x AND sampler_mask bits = x mod 2 ^ bits"
  unfolding sampler_mask_def
  by (simp add: push_bit_eq_mult and_mask_mod_2p[unfolded mask_eq_exp_minus_1] take_bit_eq_mod flip: mask_eq_exp_minus_1 take_bit_eq_mask)



lemma sampler_bits_5: "sampler_bits 5 = 3"
  by (simp add: sampler_bits_def BigInt_toString2_def nat_toString2.simps)

lemma sampler_bytes_3: "sampler_bytes 3 = 1"
  by code_simp

lemma masked_draw_example_1: "masked_draw 4 ([0xFF, 0x03] @- sconst 0) (Suc 0) = 3"
  by (simp add: masked_draw_def sampler_bits_5 sampler_bytes_3)




section \<open>When the sampler returns\<close>

lemma draw_loop_accepts:
  assumes "draw_loop bytes msk rng s = Some y"
  shows "\<exists>k. buf_value (stake bytes (sdrop (k * bytes) s)) AND msk < rng"
proof (rule draw_loop.raw_induct[where P = "\<lambda>bytes msk rng s y.
          \<exists>k. buf_value (stake bytes (sdrop (k * bytes) s)) AND msk < rng", OF _ assms])
  fix f :: "nat \<Rightarrow> int \<Rightarrow> int \<Rightarrow> byte stream \<Rightarrow> (int \<times> byte stream) option"
  fix bytes msk rng s y
  assume ih: "\<And>bytes msk rng s y. f bytes msk rng s = Some y
                 \<Longrightarrow> \<exists>k. buf_value (stake bytes (sdrop (k * bytes) s)) AND msk < rng"
    and eq: "(case randomBytes bytes s of
               (buf, s') \<Rightarrow>
                 let v = buf_value buf AND msk
                 in if v < rng then Some (v, s') else f bytes msk rng s') = Some y"
  show "\<exists>k. buf_value (stake bytes (sdrop (k * bytes) s)) AND msk < rng"
  proof (cases "buf_value (stake bytes s) AND msk < rng")
    case True
    then show ?thesis by (intro exI[of _ 0]) simp
  next
    case False
    with eq have "f bytes msk rng (sdrop bytes s) = Some y"
      by (simp add: randomBytes_def Let_def)
    from ih[OF this] obtain k where
      "buf_value (stake bytes (sdrop (k * bytes) (sdrop bytes s))) AND msk < rng" by blast
    then have "buf_value (stake bytes (sdrop (Suc k * bytes) s)) AND msk < rng"
      by (simp only: sdrop_chunk)
    then show ?thesis by blast
  qed
qed

text \<open>
  For \<open>max > 0\<close> the rejection loop of \<open>secureRandomIndex\<close> returns exactly when the byte
  stream holds a draw that is at most \<open>max\<close>: on a stream whose every draw is rejected
  it runs forever.
\<close>

theorem secureRandomIndex_returns_iff:
  assumes "0 < mx"
  shows "(\<exists>r. secureRandomIndex mx s = Some r) \<longleftrightarrow> (\<exists>k. masked_draw mx s k \<le> mx)"
proof
  assume "\<exists>r. secureRandomIndex mx s = Some r"
  then obtain y where "draw_loop (sampler_bytes (sampler_bits (mx + 1)))
      (sampler_mask (sampler_bits (mx + 1))) (mx + 1) s = Some y"
    using assms by (auto simp: secureRandomIndex_def Let_def)
  from draw_loop_accepts[OF this] show "\<exists>k. masked_draw mx s k \<le> mx"
    by (auto simp: masked_draw_def Let_def buf_value_big_endian and_sampler_mask)
next
  assume ex: "\<exists>k. masked_draw mx s k \<le> mx"
  define k where "k = (LEAST k. masked_draw mx s k \<le> mx)"
  have acc: "masked_draw mx s k \<le> mx" unfolding k_def using ex by (rule LeastI_ex)
  have rej: "\<not> masked_draw mx s j \<le> mx" if "j < k" for j
    using not_less_Least[of j "\<lambda>k. masked_draw mx s k \<le> mx"] that by (simp add: k_def)
  let ?b = "sampler_bytes (sampler_bits (mx + 1))" and ?m = "sampler_mask (sampler_bits (mx + 1))"
  have d: "buf_value (stake ?b (sdrop (j * ?b) s)) AND ?m = masked_draw mx s j" for j
    by (simp add: masked_draw_def Let_def buf_value_big_endian and_sampler_mask)
  have "draw_loop ?b ?m (mx + 1) s =
          Some (buf_value (stake ?b (sdrop (k * ?b) s)) AND ?m, sdrop (Suc k * ?b) s)"
  proof (rule draw_loop_first)
    show "\<forall>j<k. \<not> buf_value (stake ?b (sdrop (j * ?b) s)) AND ?m < mx + 1"
      using rej by (simp add: d)
    show "buf_value (stake ?b (sdrop (k * ?b) s)) AND ?m < mx + 1"
      using acc by (simp add: d)
  qed
  then show "\<exists>r. secureRandomIndex mx s = Some r"
    using assms by (simp add: secureRandomIndex_def Let_def)
qed

lemma masked_draw_all_ones: "masked_draw 4 (sconst 0xFF) k = 7"
  by (simp add: masked_draw_def sampler_bits_5 sampler_bytes_3)

text \<open>With \<open>max = 4\<close> a stream of \<open>0xFF\<close> bytes is rejected forever (every draw is 7);
  a stream whose second draw is 3 is accepted.\<close>

theorem secureRandomIndex_returns_iff_witness:
  "(0::int) < 4 \<and> secureRandomIndex 4 (sconst 0xFF) = None
   \<and> (\<exists>r. secureRandomIndex 4 ([0xFF, 0x03] @- sconst 0) = Some r)"
proof -
  have h: "(0::int) < 4" by simp
  have "\<not> (\<exists>k. masked_draw 4 (sconst 0xFF) k \<le> 4)"
    by (simp add: masked_draw_all_ones)
  with secureRandomIndex_returns_iff[OF h, of "sconst 0xFF"]
  have 1: "secureRandomIndex 4 (sconst 0xFF) = None" by auto
  have "\<exists>k. masked_draw 4 ([0xFF, 0x03] @- sconst 0) k \<le> 4"
    using masked_draw_example_1 by (intro exI[of _ "Suc 0"]) simp
  with secureRandomIndex_returns_iff[OF h, of "[0xFF, 0x03] @- sconst 0"]
  have 2: "\<exists>r. secureRandomIndex 4 ([0xFF, 0x03] @- sconst 0) = Some r" by blast
  show ?thesis using h 1 2 by blast
qed

text \<open>A negative \<open>max\<close> throws, whatever the stream.\<close>

theorem secureRandomIndex_negative:
  "mx < 0 \<Longrightarrow> secureRandomIndex mx s = Some (Inl (Error ''max must be non-negative''))"
  by (simp add: secureRandomIndex_def)

theorem secureRandomIndex_negative_witness:
  "(- 1 :: int) < 0 \<and> secureRandomIndex (- 1) (sconst 0) = Some (Inl (Error ''max must be non-negative''))"
  using secureRandomIndex_negative[of "- 1" "sconst 0"] by simp

section \<open>Properties of the commitment\<close>

lemma computeResult_mod:
  assumes "0 \<le> max' g" "0 \<le> computerNumber g" "0 \<le> u"
  shows "computeResult g u = Some ((computerNumber g + u) mod (max' g + 1))"
  using assms by (simp add: computeResult_def js_rem_def sgn_if)

lemma mod_add_inj:
  fixes c u v n :: int
  assumes "(c + u) mod n = (c + v) mod n" "0 \<le> u" "u < n" "0 \<le> v" "v < n"
  shows "u = v"
proof (rule ccontr)
  assume ne: "u \<noteq> v"
  from assms(1) have d: "n dvd (u - v)"
    by (simp add: mod_eq_dvd_iff)
  show False
  proof (cases "v < u")
    case True
    then have "n \<le> u - v" using d by (intro zdvd_imp_le) simp_all
    with assms show False by simp
  next
    case False
    with ne have lt: "u < v" by simp
    from d have "n dvd (v - u)" by (simp add: dvd_diff_commute)
    then have "n \<le> v - u" using lt by (intro zdvd_imp_le) simp_all
    with assms show False by simp
  qed
qed

text \<open>
  Claim C1. For a generator with \<open>max \<ge> 0\<close> and a committed number between 0 and \<open>max\<close>,
  \<open>computeResult\<close> maps a counterpart number \<open>u\<close> between 0 and \<open>max\<close> to
  \<open>(computerNumber + u) mod (max + 1)\<close>, and this map is a bijection of \<open>0 .. max\<close> onto
  itself: no two counterpart numbers share a result, and every value is reached.
\<close>

theorem computeResult_bijection:
  assumes "0 \<le> max' g" and "0 \<le> computerNumber g" and "computerNumber g \<le> max' g"
  shows "bij_betw (computeResult g) {0 .. max' g} (Some ` {0 .. max' g})
         \<and> (\<forall>u \<in> {0 .. max' g}.
               computeResult g u = Some ((computerNumber g + u) mod (max' g + 1)))"
proof -
  let ?n = "max' g + 1" and ?c = "computerNumber g"
  have npos: "0 < ?n" using assms(1) by simp
  have eq: "computeResult g u = Some ((?c + u) mod ?n)" if "u \<in> {0 .. max' g}" for u
    using that assms by (intro computeResult_mod) auto
  have inj: "inj_on (computeResult g) {0 .. max' g}"
  proof (rule inj_onI)
    fix u v assume u: "u \<in> {0 .. max' g}" and v: "v \<in> {0 .. max' g}"
      and "computeResult g u = computeResult g v"
    then have "(?c + u) mod ?n = (?c + v) mod ?n" by (simp add: eq)
    then show "u = v" using u v by (intro mod_add_inj[of ?c u ?n v]) simp_all
  qed
  have img: "computeResult g ` {0 .. max' g} = Some ` {0 .. max' g}"
  proof (intro set_eqI iffI)
    fix y assume "y \<in> computeResult g ` {0 .. max' g}"
    then obtain u where u: "u \<in> {0 .. max' g}" and y: "y = computeResult g u" by auto
    have "0 \<le> (?c + u) mod ?n" "(?c + u) mod ?n < ?n"
      using npos by (simp_all only: pos_mod_sign pos_mod_bound)
    then show "y \<in> Some ` {0 .. max' g}" unfolding y eq[OF u] by auto
  next
    fix y assume "y \<in> Some ` {0 .. max' g}"
    then obtain r where r: "r \<in> {0 .. max' g}" and y: "y = Some r" by auto
    let ?u = "(r - ?c) mod ?n"
    have u: "?u \<in> {0 .. max' g}" using npos pos_mod_bound[of ?n "r - ?c"] by simp
    have "(?c + ?u) mod ?n = r mod ?n" by (simp add: mod_add_right_eq)
    also have "\<dots> = r" using r by simp
    finally have "computeResult g ?u = Some r" by (simp add: eq[OF u])
    then show "y \<in> computeResult g ` {0 .. max' g}" using u y by (metis imageI)
  qed
  show ?thesis using inj img eq by (simp add: bij_betw_def)
qed

theorem computeResult_bijection_witness:
  "(0::int) \<le> max' \<lparr>max' = 5, key = [], computerNumber = 4, hmac = []\<rparr>
   \<and> 0 \<le> computerNumber \<lparr>max' = 5, key = [], computerNumber = 4, hmac = []\<rparr>
   \<and> computerNumber \<lparr>max' = 5, key = [], computerNumber = 4, hmac = []\<rparr>
        \<le> max' \<lparr>max' = 5, key = [], computerNumber = 4, hmac = []\<rparr>
   \<and> bij_betw (computeResult \<lparr>max' = 5, key = [], computerNumber = 4, hmac = []\<rparr>)
         {0 .. 5} (Some ` {0 .. 5})
   \<and> computeResult \<lparr>max' = 5, key = [], computerNumber = 4, hmac = []\<rparr> 3 = Some 1"
proof -
  let ?g = "\<lparr>max' = 5, key = [], computerNumber = 4, hmac = []\<rparr>"
  have h1: "0 \<le> max' ?g" and h2: "0 \<le> computerNumber ?g"
    and h3: "computerNumber ?g \<le> max' ?g"
    by simp_all
  have "computeResult ?g 3 = Some 1"
    by (simp add: computeResult_def js_rem_def)
  then show ?thesis
    using computeResult_bijection[OF h1 h2 h3] by simp
qed









section \<open>Properties of the parser\<close>








lemma bit_length_bound: "n < 2 ^ k \<Longrightarrow> bit_length n \<le> k"
proof (induction k arbitrary: n)
  case 0
  then show ?case by (subst bit_length.simps) simp
next
  case (Suc k)
  show ?case
  proof (cases "n \<le> 0")
    case True
    then show ?thesis by (subst bit_length.simps) simp
  next
    case False
    from Suc.prems have "n div 2 < 2 ^ k" by simp
    from Suc.IH[OF this] False show ?thesis
      by (subst bit_length.simps) simp
  qed
qed

lemma bit_length_1: "bit_length 1 = 1"
  by (simp add: bit_length.simps)

lemma round_half_even_int: "round_half_even (of_int m) = m"
  by (simp add: round_half_even_def)

lemma pow2_nonpos: "e \<le> 0 \<Longrightarrow> pow2 e = 1 / 2 ^ nat (- e)"
  by (cases "e = 0") (simp_all add: pow2_def)

lemma floor_log2_int_le:
  assumes "0 < m" and "m < 2 ^ 53"
  shows "floor_log2 (of_int m) \<le> 52"
proof -
  have "bit_length m \<le> 53" using assms(2) by (rule bit_length_bound)
  then show ?thesis
    by (simp add: floor_log2_def quotient_of_int bit_length_1 Let_def)
qed

lemma round_double_int:
  assumes "\<bar>n\<bar> < 2 ^ 53"
  shows "round_double (of_int n) = Fin (of_int n)"
proof (cases "n = 0")
  case True
  then show ?thesis by (simp add: round_double_def)
next
  case False
  define m where "m = \<bar>n\<bar>"
  have m: "0 < m" "m < 2 ^ 53" using False assms by (simp_all add: m_def)
  have abs: "\<bar>rat_of_int n\<bar> = of_int m" by (simp add: m_def)
  define e where "e = max (floor_log2 (of_int m)) (- 1022)"
  have e: "e \<le> 52" using floor_log2_int_le[OF m] by (simp add: e_def)
  define k where "k = nat (52 - e)"
  have ulp: "pow2 (e - 52) = 1 / 2 ^ k"
    using e by (simp add: pow2_nonpos k_def)
  have small: "\<not> (2 ^ 1024 - 2 ^ 970 \<le> rat_of_int m)"
  proof -
    have "rat_of_int m < 2 ^ 53" using m(2) by (metis of_int_less_numeral_power_cancel_iff)
    also have "\<dots> \<le> 2 ^ 1024 - 2 ^ 970" by simp
    finally show ?thesis by simp
  qed
  have q: "rat_of_int m / (1 / 2 ^ k) = of_int (m * 2 ^ k)" by simp
  have "round_double (of_int n) = Fin (sgn (of_int n) * of_int (m * 2 ^ k) * (1 / 2 ^ k))"
    using False small
    unfolding round_double_def abs Let_def e_def[symmetric] ulp q round_half_even_int
    by simp
  also have "sgn (rat_of_int n) * of_int (m * 2 ^ k) * (1 / 2 ^ k) = sgn (of_int n) * of_int m"
    by simp
  also have "\<dots> = of_int n"
    by (simp add: m_def sgn_if)
  finally show ?thesis .
qed

lemma is_digit_cases:
  "is_digit c \<Longrightarrow> \<not> is_whitespace c \<and> c \<notin> set ''bBoOxX'' \<and> c \<noteq> CHR ''+'' \<and> c \<noteq> CHR ''-''
      \<and> c \<noteq> CHR ''.'' \<and> c \<noteq> CHR ''I''"
  by (auto simp: is_digit_def is_whitespace_def)

lemma js_trim_id:
  assumes "s \<noteq> []" "\<not> is_whitespace (hd s)" "\<not> is_whitespace (last s)"
  shows "js_trim s = s"
proof -
  have 1: "dropWhile is_whitespace s = s"
    using assms(1,2) by (cases s) simp_all
  have 2: "dropWhile is_whitespace (rev s) = rev s"
    using assms(1,3) by (cases "rev s") (simp_all add: hd_rev[symmetric])
  show ?thesis by (simp add: js_trim_def 1 2)
qed

lemma all_digits_take: "list_all is_digit ds \<Longrightarrow> takeWhile is_digit ds = ds"
  by (induction ds) simp_all

lemma all_digits_drop: "list_all is_digit ds \<Longrightarrow> dropWhile is_digit ds = []"
  by (induction ds) simp_all

lemma unsigned_decimal_digits:
  assumes "all_digits ds"
  shows "unsigned_decimal_literal ds = Fin (of_int (digits_value 10 ds))"
proof -
  from assms have ne: "ds \<noteq> []" and all: "list_all is_digit ds"
    by (simp_all add: all_digits_def)
  have "ds \<noteq> ''Infinity''"
    using all by (auto simp: is_digit_def)
  then show ?thesis
    using ne by (simp add: unsigned_decimal_literal_def all_digits_take[OF all] all_digits_drop[OF all])
qed

lemma all_digits_ends:
  assumes "all_digits ds"
  shows "is_digit (hd ds)" "is_digit (last ds)"
  using assms by (auto simp: all_digits_def list_all_iff)

lemma non_decimal_digits:
  assumes "all_digits ds"
  shows "non_decimal_literal ds = None"
proof (cases ds)
  case Nil
  then show ?thesis by (simp add: non_decimal_literal_def)
next
  case (Cons c cs)
  show ?thesis
  proof (cases cs)
    case Nil
    with Cons show ?thesis by (simp add: non_decimal_literal_def)
  next
    case (Cons p rest)
    with \<open>ds = c # cs\<close> assms have "is_digit p" by (simp add: all_digits_def)
    then have "p \<notin> set ''bBoOxX''" using is_digit_cases by blast
    with Cons \<open>ds = c # cs\<close> show ?thesis
      by (simp only: non_decimal_literal_def list.case if_False simp_thms)
  qed
qed

lemma StringToNumber_digits:
  assumes "all_digits ds"
  shows "StringToNumber ds = to_double (Fin (of_int (digits_value 10 ds)))"
proof -
  from assms have ne: "ds \<noteq> []" by (simp add: all_digits_def)
  have trim: "js_trim ds = ds"
    using ne all_digits_ends[OF assms] is_digit_cases by (intro js_trim_id) auto
  have hd: "hd ds \<noteq> CHR ''+''" "hd ds \<noteq> CHR ''-''"
    using all_digits_ends(1)[OF assms] is_digit_cases by auto
  have dec: "decimal_literal ds = unsigned_decimal_literal ds"
    using ne hd by (cases ds) (simp_all add: decimal_literal_def)
  show ?thesis
    using ne by (simp add: StringToNumber_def trim non_decimal_digits[OF assms] dec
        unsigned_decimal_digits[OF assms])
qed

lemma StringToNumber_minus_digits:
  assumes "all_digits ds"
  shows "StringToNumber (CHR ''-'' # ds) = to_double (Fin (- of_int (digits_value 10 ds)))"
proof -
  from assms have ne: "ds \<noteq> []" by (simp add: all_digits_def)
  have "\<not> is_whitespace (last ds)"
    using all_digits_ends(2)[OF assms] is_digit_cases by auto
  then have trim: "js_trim (CHR ''-'' # ds) = CHR ''-'' # ds"
    using ne by (intro js_trim_id) (simp_all add: is_whitespace_def)
  have nd: "non_decimal_literal (CHR ''-'' # ds) = None"
    by (simp add: non_decimal_literal_def split: list.splits)
  show ?thesis
    by (simp add: StringToNumber_def trim nd decimal_literal_def unsigned_decimal_digits[OF assms])
qed

lemma all_digits_not_minus: "all_digits t \<Longrightarrow> hd t \<noteq> CHR ''-''"
  using all_digits_ends(1) is_digit_cases by auto

lemma StringToNumber_integer_token:
  assumes "integer_token t" and "\<bar>token_value t\<bar> < 2 ^ 53"
  shows "StringToNumber t = Fin (of_int (token_value t))"
proof (cases t)
  case Nil
  with assms(1) show ?thesis by (simp add: integer_token_def)
next
  case (Cons c ds)
  show ?thesis
  proof (cases "c = CHR ''-''")
    case True
    with assms Cons have d: "all_digits ds" and v: "\<bar>- digits_value 10 ds\<bar> < 2 ^ 53"
      by (simp_all add: integer_token_def token_value_def)
    have "StringToNumber t = round_double (of_int (- digits_value 10 ds))"
      using StringToNumber_minus_digits[OF d] Cons True by simp
    also have "\<dots> = Fin (of_int (- digits_value 10 ds))"
      using v by (rule round_double_int)
    finally show ?thesis using Cons True by (simp add: token_value_def)
  next
    case False
    with assms Cons have d: "all_digits t" and v: "\<bar>digits_value 10 t\<bar> < 2 ^ 53"
      by (simp_all add: integer_token_def token_value_def)
    have "StringToNumber t = round_double (of_int (digits_value 10 t))"
      using StringToNumber_digits[OF d] by simp
    also have "\<dots> = Fin (of_int (digits_value 10 t))"
      using v by (rule round_double_int)
    finally show ?thesis using Cons False by (simp add: token_value_def)
  qed
qed




lemmas token_eval =
  integer_token_def all_digits_def is_digit_def token_value_def digits_value_def hex_value_def




section \<open>Properties of the match\<close>

lemma io_bind_return [simp]: "io_bind (io_return x) f = f x"
  by (rule ext) (simp add: io_bind_def io_return_def)

lemma prompt_loop_number:
  assumes "integer_token l" and "\<bar>token_value l\<bar> < 2 ^ 53"
    and "0 \<le> token_value l" and "token_value l \<le> mx"
    and "toUpperCase (js_trim l) = l"
  shows "prompt_loop helpText mx (l # rest) out = (Return (Some (token_value l)), rest, out @ [Prompt])"
proof -
  have ne: "l \<noteq> ''X''" "l \<noteq> ''?''"
    using assms(1) by (auto simp: integer_token_def all_digits_def is_digit_def)
  show ?thesis
    using assms ne by (simp add: prompt_loop.simps StringToNumber_integer_token)
qed

lemma prompt_loop_exit:
  "prompt_loop helpText mx (''X'' # rest) out = (Return None, rest, out @ [Prompt, Line ''Game cancelled.''])"
  by (simp add: prompt_loop.simps js_trim_def is_whitespace_def toUpperCase_def char_toUpperCase_def)

lemma prompt_0:
  "0 \<le> mx \<Longrightarrow> prompt_loop helpText mx (''0'' # rest) out = (Return (Some 0), rest, out @ [Prompt])"
  using prompt_loop_number[of "''0''" mx helpText rest out]
  by (simp add: token_eval js_trim_def is_whitespace_def toUpperCase_def char_toUpperCase_def)

lemma dice_js_parseDice_classic:
  "dice_js_parseDice [''2,2,4,4,9,9'', ''1,1,6,6,8,8'', ''3,3,5,5,7,7''] = Inr classic"
  by (simp add: dice_js_parseDice_def Let_def StringToNumber_integer_token token_eval classic_def)

lemma ask_0:
  assumes "stdin w = ''0'' # rest" and "0 \<le> mx"
  shows "ask helpText mx w = Some (Return (Some 0), w\<lparr>stdin := rest, stdout := stdout w @ [Prompt]\<rparr>)"
  using assms by (simp add: ask_def prompt_0)

lemma ask_X:
  assumes "stdin w = ''X'' # rest"
  shows "ask helpText mx w =
     Some (Return None, w\<lparr>stdin := rest, stdout := stdout w @ [Prompt, Line ''Game cancelled.'']\<rparr>)"
  using assms by (simp add: ask_def prompt_loop_exit)

lemma classic_pick: "\<exists>d. die_at (new_Game classic) (int n mod 3) = io_return d \<and> numFaces d = 6 \<and> d \<in> set classic"
proof -
  have "n mod 3 = 0 \<or> n mod 3 = 1 \<or> n mod 3 = 2" by arith
  moreover have "nat (int n mod 3) = n mod 3" by (simp add: nat_mod_distrib)
  ultimately show ?thesis
    by (auto simp: die_at_def new_Game_def classic_def new_Dice_def)
qed

lemma nat_toString_digit: "n < 10 \<Longrightarrow> nat_toString n = [digit_char n]"
  by (simp add: nat_toString.simps)

lemma Number_toString_digit: "0 \<le> n \<Longrightarrow> n < 10 \<Longrightarrow> Number_toString n = [digit_char (nat n)]"
  by (simp add: Number_toString_def nat_toString_digit)

lemma table_classic:
  "generateProbabilityTable classic =
     [[None, Some (Fin (5 / 9)), Some (Fin (4 / 9))],
      [Some (Fin (4 / 9)), None, Some (Fin (5 / 9))],
      [Some (Fin (5 / 9)), Some (Fin (4 / 9)), None]]"
  by code_simp

lemma die_menu_classic:
  "dice g = classic \<Longrightarrow> die_menu g =
     [Line ''Pick your die:'', Line ''0 - [2,2,4,4,9,9]'', Line ''1 - [1,1,6,6,8,8]'',
      Line ''2 - [3,3,5,5,7,7]'', Line ''X - exit'', Line ''? - help'']"
  by (simp add: die_menu_def classic_def upt_rec faces_text_def new_Dice_def
        Number_toString_digit digit_char_def)

lemma showOptions_5:
  "showOptions 5 =
     [Line ''0 - 0'', Line ''1 - 1'', Line ''2 - 2'', Line ''3 - 3'', Line ''4 - 4'', Line ''5 - 5'',
      Line ''X - exit'', Line ''? - help'']"
  by (simp add: showOptions_def upt_rec Number_toString_digit digit_char_def)





lemma prompt_loop_acc:
  "prompt_loop helpText mx ls out =
     (case prompt_loop helpText mx ls [] of (r, rest, es) \<Rightarrow> (r, rest, out @ es))"
proof (induction ls arbitrary: out)
  case Nil
  then show ?case by (simp add: prompt_loop.simps)
next
  case (Cons l ls)
  have L1: "prompt_loop helpText mx ls (out @ [Prompt, Line helpText]) =
      (case prompt_loop helpText mx ls [] of
         (r, rest, es) \<Rightarrow> (r, rest, (out @ [Prompt, Line helpText]) @ es))"
    by (rule Cons.IH)
  have R1: "prompt_loop helpText mx ls [Prompt, Line helpText] =
      (case prompt_loop helpText mx ls [] of
         (r, rest, es) \<Rightarrow> (r, rest, [Prompt, Line helpText] @ es))"
    by (rule Cons.IH)
  have L2: "prompt_loop helpText mx ls (out @ [Prompt, Line (pick_between mx)]) =
      (case prompt_loop helpText mx ls [] of
         (r, rest, es) \<Rightarrow> (r, rest, (out @ [Prompt, Line (pick_between mx)]) @ es))"
    by (rule Cons.IH)
  have R2: "prompt_loop helpText mx ls [Prompt, Line (pick_between mx)] =
      (case prompt_loop helpText mx ls [] of
         (r, rest, es) \<Rightarrow> (r, rest, [Prompt, Line (pick_between mx)] @ es))"
    by (rule Cons.IH)
  show ?case
    by (simp add: prompt_loop.simps(2)[of _ _ l ls] L1 R1 L2 R2 Let_def split: prod.splits)
qed


lemma ask_result:
  assumes "prompt_loop helpText mx (stdin w) [] = (r, rest, es)"
  shows "ask helpText mx w = Some (r, w\<lparr>stdin := rest, stdout := stdout w @ es\<rparr>)"
  using assms by (simp add: ask_def prompt_loop_acc[of _ _ _ "stdout w"])






lemma sampler_bits_2: "sampler_bits 2 = 2"
  by (simp add: sampler_bits_def BigInt_toString2_def nat_toString2.simps)

lemma sampler_bytes_2: "sampler_bytes 2 = 1"
  by code_simp

lemma secureRandomIndex_example: "secureRandomIndex 1 (sconst 1) = Some (Inr (1, sconst 1))"
proof -
  have "draw_loop 1 (sampler_mask 2) 2 (sconst 1) = Some (1, sconst 1)"
    by (subst draw_loop.simps)
       (simp add: randomBytes_def buf_value_def sampler_mask_def)
  then show ?thesis
    by (simp add: secureRandomIndex_def sampler_bits_2 sampler_bytes_2)
qed

lemma example_generator:
  "\<exists>g. new_FairRandomGenerator (example_env hs) 1 (sconst 1) = Some (Inr (g, sconst 1))
       \<and> computerNumber g = 1"
  by (simp add: new_FairRandomGenerator_def generateKey_def randomBytes_def
        secureRandomIndex_example computeHMAC_def example_env_def example_hmac_def)








text \<open>
  Claim C6 on \<open>src/dice.js\<close>, at an input on which it fails. The three classic dice are
  given, the user picks die 0 and then answers the prompt of the roll with the exit token.
  \<open>userRoll\<close> prints \<open>Game cancelled.\<close> and returns \<open>null\<close>, and \<open>run\<close> goes on: it prints
  \<open>Your roll: null\<close>, the computer's roll, a verdict (\<open>null\<close> counts as 0, so the computer
  wins) and the table of win chances.
\<close>

theorem dice_js_reports_after_cancel:
  "map_option (\<lambda>(r, w). (r, stdout w))
     (dice_js_main [''2,2,4,4,9,9'', ''1,1,6,6,8,8'', ''3,3,5,5,7,7'']
        \<lparr>entropy = sconst 0, randomInts = sconst 0, stdin = [''0'', ''X''], stdout = []\<rparr>) =
   Some (Return (),
     [Line ''Computer picks first!'',
      Line ''Computer picks die: [2,2,4,4,9,9]'',
      Line ''Pick your die:'', Line ''0 - [2,2,4,4,9,9]'', Line ''1 - [1,1,6,6,8,8]'',
      Line ''2 - [3,3,5,5,7,7]'', Line ''X - exit'', Line ''? - help'',
      Prompt,
      Line ''You picked: [2,2,4,4,9,9]'',
      Line (newline @ ''Your rolling:''),
      Line ''0 - 0'', Line ''1 - 1'', Line ''2 - 2'', Line ''3 - 3'', Line ''4 - 4'', Line ''5 - 5'',
      Line ''X - exit'', Line ''? - help'',
      Prompt, Line ''Game cancelled.'',
      YourRoll JNull, ComputerRoll (JNum 2), ComputerWins (JNum 2) JNull,
      Line (newline @ ''Pairwise win probability table:''),
      Table [[None, Some (Fin (5 / 9)), Some (Fin (4 / 9))],
             [Some (Fin (4 / 9)), None, Some (Fin (5 / 9))],
             [Some (Fin (5 / 9)), Some (Fin (4 / 9)), None]]])"
proof -
  have d0: "dice g = classic \<Longrightarrow> die_at g 0 = io_return (new_Dice [2, 2, 4, 4, 9, 9])" for g
    by (simp add: die_at_def classic_def)
  have ft: "faces_text (new_Dice [2, 2, 4, 4, 9, 9]) = ''[2,2,4,4,9,9]''"
    by (simp add: faces_text_def new_Dice_def Number_toString_digit digit_char_def)
  have nf: "numFaces (new_Dice [2, 2, 4, 4, 9, 9]) = 6" by (simp add: new_Dice_def)
  have f0: "getFace (new_Dice [2, 2, 4, 4, 9, 9]) 0 = JNum 2"
    by (simp add: getFace_def new_Dice_def js_rem_def)
  have len: "length classic = 3" by (simp add: classic_def)
  show ?thesis
    by (simp add: dice_js_main_def dice_js_parseDice_classic catch_error_def dice_js_run_def
          randomInt_def io_bind_def say_def Let_def dice_js_pick_dice_def dice_js_computer_picks_def
          pickRandomDie_def dice_js_selectUserDie_def dice_js_getUserInput_def io_return_def
          ask_0 ask_X d0 dice_js_computerRoll_def dice_js_userRoll_def len nf f0 ft
          new_Game_def report_def verdict_def js_gt_def table_classic die_menu_classic showOptions_5)
qed

section \<open>A cancelled match of \<open>src/unnamed/part_000\<close> reports nothing\<close>

lemma quiet_append [simp]: "quiet (xs @ ys) = (quiet xs \<and> quiet ys)"
  by (auto simp: quiet_def list_ex_iff)

lemma quiet_Nil [simp]: "quiet []"
  by (simp add: quiet_def)

lemma plain_append [simp]: "plain (xs @ ys) = (plain xs \<and> plain ys)"
  by (auto simp: plain_def)

lemma plain_Nil [simp]: "plain []"
  by (simp add: plain_def)

lemma plain_Cons_Line [simp]: "plain (Line t # es) = (t \<noteq> ''Game cancelled.'' \<and> plain es)"
  by (auto simp: plain_def quiet_def cancelled_def)

lemma plain_Cons_Prompt [simp]: "plain (Prompt # es) = plain es"
  by (auto simp: plain_def quiet_def cancelled_def)

lemma quiet_Cons_Line [simp]: "quiet (Line t # es) = quiet es" "quiet (Prompt # es) = quiet es"
  by (auto simp: quiet_def)

lemma step_return: "post x \<Longrightarrow> step (io_return x) post cont"
  by (auto simp: step_def io_return_def)

lemma step_say: "plain es0 \<Longrightarrow> step k post cont \<Longrightarrow> step (say es0 k) post cont"
  unfolding step_def say_def
proof (intro allI impI)
  fix w r w'
  assume p: "plain es0"
    and k: "\<forall>w r w'. k w = Some (r, w') \<longrightarrow>
        (\<exists>es. stdout w' = stdout w @ es \<and> quiet es
              \<and> (\<forall>x. r = Return x \<longrightarrow> post x \<and> (cont x \<longrightarrow> cancelled \<notin> set es)))"
    and e: "k (w\<lparr>stdout := stdout w @ es0\<rparr>) = Some (r, w')"
  from k[rule_format, OF e] obtain es where
    es: "stdout w' = stdout (w\<lparr>stdout := stdout w @ es0\<rparr>) @ es" "quiet es"
      "\<forall>x. r = Return x \<longrightarrow> post x \<and> (cont x \<longrightarrow> cancelled \<notin> set es)"
    by blast
  show "\<exists>es. stdout w' = stdout w @ es \<and> quiet es
              \<and> (\<forall>x. r = Return x \<longrightarrow> post x \<and> (cont x \<longrightarrow> cancelled \<notin> set es))"
    using es p by (intro exI[of _ "es0 @ es"]) (auto simp: plain_def)
qed

lemma step_bind:
  assumes m: "step m p1 c1"
    and f: "\<And>x. p1 x \<Longrightarrow> step (f x) (\<lambda>y. p2 y \<and> (c2 y \<longrightarrow> c1 x)) c2"
  shows "step (io_bind m f) p2 c2"
  unfolding step_def
proof (intro allI impI)
  fix w r w'
  assume e: "io_bind m f w = Some (r, w')"
  then obtain r1 w1 where m1: "m w = Some (r1, w1)"
    by (cases "m w") (auto simp: io_bind_def)
  from m[unfolded step_def, rule_format, OF m1] obtain es1 where
    es1: "stdout w1 = stdout w @ es1" "quiet es1"
      "\<forall>x. r1 = Return x \<longrightarrow> p1 x \<and> (c1 x \<longrightarrow> cancelled \<notin> set es1)"
    by blast
  show "\<exists>es. stdout w' = stdout w @ es \<and> quiet es
              \<and> (\<forall>x. r = Return x \<longrightarrow> p2 x \<and> (c2 x \<longrightarrow> cancelled \<notin> set es))"
  proof (cases r1)
    case (Return x)
    with e m1 have fx: "f x w1 = Some (r, w')" by (simp add: io_bind_def)
    from es1(3) Return have px: "p1 x" and cx: "c1 x \<longrightarrow> cancelled \<notin> set es1" by simp_all
    from f[OF px, unfolded step_def, rule_format, OF fx] obtain es2 where
      es2: "stdout w' = stdout w1 @ es2" "quiet es2"
        "\<forall>y. r = Return y \<longrightarrow> (p2 y \<and> (c2 y \<longrightarrow> c1 x)) \<and> (c2 y \<longrightarrow> cancelled \<notin> set es2)"
      by blast
    show ?thesis
      using es1(1,2) es2 cx by (intro exI[of _ "es1 @ es2"]) auto
  next
    case (Throw err)
    with e m1 have "r = Throw err" "w' = w1" by (simp_all add: io_bind_def)
    with es1 show ?thesis by (intro exI[of _ es1]) auto
  next
    case Pending
    with e m1 have "r = Pending" "w' = w1" by (simp_all add: io_bind_def)
    with es1 show ?thesis by (intro exI[of _ es1]) auto
  qed
qed

lemma step_weaken:
  assumes "step m p c" and "\<And>x. p x \<Longrightarrow> p' x" and "\<And>x. p x \<Longrightarrow> c' x \<Longrightarrow> c x"
  shows "step m p' c'"
  unfolding step_def
proof (intro allI impI)
  fix w r w'
  assume "m w = Some (r, w')"
  from assms(1)[unfolded step_def, rule_format, OF this] obtain es where
    es: "stdout w' = stdout w @ es" "quiet es"
      "\<forall>x. r = Return x \<longrightarrow> p x \<and> (c x \<longrightarrow> cancelled \<notin> set es)"
    by blast
  show "\<exists>es. stdout w' = stdout w @ es \<and> quiet es
              \<and> (\<forall>x. r = Return x \<longrightarrow> p' x \<and> (c' x \<longrightarrow> cancelled \<notin> set es))"
    using es assms(2,3) by (intro exI[of _ es]) auto
qed

lemma stops_bind:
  assumes m: "step m p c"
    and go: "\<And>x. p x \<Longrightarrow> c x \<Longrightarrow> stops_quietly (f x)"
    and stop: "\<And>x. p x \<Longrightarrow> \<not> c x \<Longrightarrow> step (f x) (\<lambda>_. True) (\<lambda>_. False)"
  shows "stops_quietly (io_bind m f)"
  unfolding stops_quietly_def
proof (intro allI impI)
  fix w r w'
  assume e: "io_bind m f w = Some (r, w')"
  then obtain r1 w1 where m1: "m w = Some (r1, w1)"
    by (cases "m w") (auto simp: io_bind_def)
  from m[unfolded step_def, rule_format, OF m1] obtain es1 where
    es1: "stdout w1 = stdout w @ es1" "quiet es1"
      "\<forall>x. r1 = Return x \<longrightarrow> p x \<and> (c x \<longrightarrow> cancelled \<notin> set es1)"
    by blast
  show "\<exists>es. stdout w' = stdout w @ es \<and> (cancelled \<in> set es \<longrightarrow> quiet es)"
  proof (cases r1)
    case (Return x)
    with e m1 have fx: "f x w1 = Some (r, w')" by (simp add: io_bind_def)
    from es1(3) Return have px: "p x" and cx: "c x \<longrightarrow> cancelled \<notin> set es1" by simp_all
    show ?thesis
    proof (cases "c x")
      case True
      from go[OF px True, unfolded stops_quietly_def, rule_format, OF fx] obtain es2 where
        "stdout w' = stdout w1 @ es2" "cancelled \<in> set es2 \<longrightarrow> quiet es2" by blast
      with es1(1,2) cx True show ?thesis
        by (intro exI[of _ "es1 @ es2"]) auto
    next
      case False
      from stop[OF px False, unfolded step_def, rule_format, OF fx] obtain es2 where
        "stdout w' = stdout w1 @ es2" "quiet es2" by blast
      with es1(1,2) show ?thesis
        by (intro exI[of _ "es1 @ es2"]) auto
    qed
  next
    case (Throw err)
    with e m1 have "w' = w1" by (simp_all add: io_bind_def)
    with es1 show ?thesis by (intro exI[of _ es1]) auto
  next
    case Pending
    with e m1 have "w' = w1" by (simp_all add: io_bind_def)
    with es1 show ?thesis by (intro exI[of _ es1]) auto
  qed
qed

lemma digit_char_not_G: "d < 10 \<Longrightarrow> digit_char d \<noteq> CHR ''G''"
proof -
  assume "d < 10"
  then have "d \<in> set [0, 1, 2, 3, 4, 5, 6, 7, 8, 9]" by (simp del: One_nat_def) arith
  then show ?thesis by (auto simp: digit_char_def)
qed

lemma nat_toString_hd: "nat_toString n \<noteq> [] \<and> hd (nat_toString n) \<noteq> CHR ''G''"
proof (induction n rule: nat_toString.induct)
  case (1 n)
  show ?case
  proof (cases "n < 10")
    case True
    then show ?thesis by (subst (1 2) nat_toString.simps) (simp add: digit_char_not_G)
  next
    case False
    from 1[OF False] show ?thesis
      using False by (subst (1 2) nat_toString.simps) simp
  qed
qed

lemma Number_toString_hd: "Number_toString n \<noteq> [] \<and> hd (Number_toString n) \<noteq> CHR ''G''"
  using nat_toString_hd by (simp add: Number_toString_def)

lemma Number_toString_line [simp]: "Number_toString n @ t \<noteq> ''Game cancelled.''"
proof
  assume "Number_toString n @ t = ''Game cancelled.''"
  then have "hd (Number_toString n @ t) = CHR ''G''" by simp
  with Number_toString_hd[of n] show False by simp
qed

lemma plain_map_Line:
  "(\<And>x. x \<in> set xs \<Longrightarrow> f x \<noteq> ''Game cancelled.'') \<Longrightarrow> plain (map (\<lambda>x. Line (f x)) xs)"
  by (induction xs) simp_all

lemma plain_showOptions [simp]: "plain (showOptions mx)"
  by (simp add: showOptions_def plain_map_Line)

lemma plain_die_menu [simp]: "plain (die_menu g)"
  by (simp add: die_menu_def plain_map_Line)

lemma plain_roll_lines:
  "intro \<noteq> [] \<Longrightarrow> hd intro \<noteq> CHR ''G'' \<Longrightarrow> plain (roll_lines intro generator d)"
  by (cases intro) (auto simp: roll_lines_def)

lemma prompt_loop_step:
  assumes h: "helpText \<noteq> ''Game cancelled.''"
  shows "prompt_loop helpText mx ls [] = (r, rest, es) \<Longrightarrow>
           quiet es \<and> (\<forall>n. r = Return (Some n) \<longrightarrow> cancelled \<notin> set es)"
proof (induction ls arbitrary: r rest es)
  case Nil
  then show ?case by (auto simp: prompt_loop.simps cancelled_def)
next
  case (Cons l ls)
  obtain r' rest' es' where rec: "prompt_loop helpText mx ls [] = (r', rest', es')"
    by (cases "prompt_loop helpText mx ls []") auto
  note ih = Cons.IH[OF rec]
  have a1: "prompt_loop helpText mx ls [Prompt, Line helpText] = (r', rest', [Prompt, Line helpText] @ es')"
    using rec by (simp add: prompt_loop_acc[of _ _ _ "[Prompt, Line helpText]"])
  have a2: "prompt_loop helpText mx ls [Prompt, Line (pick_between mx)] =
              (r', rest', [Prompt, Line (pick_between mx)] @ es')"
    using rec by (simp add: prompt_loop_acc[of _ _ _ "[Prompt, Line (pick_between mx)]"])
  have pb: "pick_between mx \<noteq> ''Game cancelled.''" by (simp add: pick_between_def)
  from Cons.prems show ?case
    using ih h pb
    by (auto simp: prompt_loop.simps(2)[of _ _ l ls] Let_def a1 a2 cancelled_def split: if_splits)
qed

lemma step_ask:
  assumes "helpText \<noteq> ''Game cancelled.''"
  shows "step (ask helpText mx) (\<lambda>_. True) (\<lambda>x. x \<noteq> None)"
  unfolding step_def
proof (intro allI impI)
  fix w r w'
  assume a: "ask helpText mx w = Some (r, w')"
  obtain r0 rest es where p: "prompt_loop helpText mx (stdin w) [] = (r0, rest, es)"
    by (cases "prompt_loop helpText mx (stdin w) []") auto
  from ask_result[OF p] a have "r = r0" "stdout w' = stdout w @ es" by auto
  with prompt_loop_step[OF assms p]
  show "\<exists>es. stdout w' = stdout w @ es \<and> quiet es
              \<and> (\<forall>x. r = Return x \<longrightarrow> True \<and> (x \<noteq> None \<longrightarrow> cancelled \<notin> set es))"
    by (intro exI[of _ es]) auto
qed

lemma step_getUserInput: "step (getUserInput mx) (\<lambda>_. True) (\<lambda>x. x \<noteq> None)"
  unfolding getUserInput_def getUserInputStatic_def by (rule step_ask) simp

lemma step_silent:
  assumes "\<And>w r w'. m w = Some (r, w') \<Longrightarrow> stdout w' = stdout w \<and> (\<forall>x. r = Return x \<longrightarrow> post x)"
  shows "step m post cont"
  unfolding step_def
proof (intro allI impI)
  fix w r w'
  assume "m w = Some (r, w')"
  from assms[OF this] show "\<exists>es. stdout w' = stdout w @ es \<and> quiet es
              \<and> (\<forall>x. r = Return x \<longrightarrow> post x \<and> (cont x \<longrightarrow> cancelled \<notin> set es))"
    by (intro exI[of _ "[]"]) auto
qed

lemma step_create_generator: "step (create_generator env mx) (\<lambda>_. True) (\<lambda>_. True)"
  by (rule step_silent) (auto simp: create_generator_def split: option.splits sum.splits)

lemma step_sample: "step (sample mx) (\<lambda>_. True) (\<lambda>_. True)"
  by (rule step_silent) (auto simp: sample_def split: option.splits sum.splits)

lemma step_die_at: "step (die_at g i) (\<lambda>_. True) (\<lambda>_. True)"
  by (rule step_silent) (auto simp: die_at_def io_return_def split: if_splits)

lemma step_throw: "step (\<lambda>w. Some (Throw e, w)) post cont"
  by (rule step_silent) auto

lemma step_decideFirstPlayer: "step (decideFirstPlayer env) (\<lambda>_. True) (\<lambda>x. x \<noteq> None)"
  unfolding decideFirstPlayer_def
proof (intro step_say step_bind[OF step_create_generator]
         step_bind[OF step_getUserInput[unfolded getUserInput_def]])
  fix generator and userChoice :: "int option"
  show "step (case userChoice of
             None \<Rightarrow> io_return None
           | Some u \<Rightarrow>
               (let result = js_rem (getComputerNumber generator + u) 2;
                    computerFirst = (result = Some 0)
                in say [Line (reveal_line generator),
                        Line (computed_line generator u 2 result),
                        Line (if computerFirst then ''Computer picks first!''
                              else ''You pick first!'')]
                    (io_return (Some computerFirst))))
           (\<lambda>y. (True \<and> (y \<noteq> None \<longrightarrow> True)) \<and> (y \<noteq> None \<longrightarrow> userChoice \<noteq> None))
           (\<lambda>x. x \<noteq> None)"
    by (cases userChoice)
       (auto simp: Let_def reveal_line_def computed_line_def intro!: step_return step_say)
qed simp_all

lemma step_computer_picks:
  "step (computer_picks g) (\<lambda>g'. userDie g' = userDie g) (\<lambda>_. True)"
  unfolding computer_picks_def
  by (intro step_bind[OF step_sample] step_bind[OF step_die_at] step_say step_return) simp_all

lemma step_selectUserDie:
  assumes "userDie g = None"
  shows "step (selectUserDie g) (\<lambda>_. True) (\<lambda>g'. userDie g' \<noteq> None)"
  unfolding selectUserDie_def
proof (intro step_say step_bind[OF step_getUserInput])
  fix choice :: "int option"
  show "step (case choice of
           None \<Rightarrow> io_return g
         | Some c \<Rightarrow>
             io_bind (die_at g c) (\<lambda>d.
             say [Line (''You picked: '' @ faces_text d)]
              (io_return (g\<lparr>userDie := Some d\<rparr>))))
          (\<lambda>y. True \<and> (userDie y \<noteq> None \<longrightarrow> choice \<noteq> None)) (\<lambda>g'. userDie g' \<noteq> None)"
    using assms
    by (cases choice)
       (auto intro!: step_return step_say step_bind[OF step_die_at])
qed simp_all

lemma step_pick_dice:
  assumes "userDie g = None"
  shows "step (pick_dice computerFirst g) (\<lambda>_. True) (\<lambda>g'. userDie g' \<noteq> None)"
proof (cases computerFirst)
  case True
  have "step (io_bind (computer_picks g) selectUserDie) (\<lambda>_. True) (\<lambda>g'. userDie g' \<noteq> None)"
  proof (rule step_bind[OF step_computer_picks])
    fix x :: game assume "userDie x = userDie g"
    with assms have "userDie x = None" by simp
    from step_selectUserDie[OF this]
    show "step (selectUserDie x) (\<lambda>y. True \<and> (userDie y \<noteq> None \<longrightarrow> True)) (\<lambda>g'. userDie g' \<noteq> None)"
      by (rule step_weaken) simp_all
  qed
  with True show ?thesis by (simp add: pick_dice_def)
next
  case False
  have "step (io_bind (selectUserDie g) computer_picks) (\<lambda>_. True) (\<lambda>g'. userDie g' \<noteq> None)"
  proof (rule step_bind[OF step_selectUserDie[OF assms]])
    fix x :: game
    from step_computer_picks[of x]
    show "step (computer_picks x) (\<lambda>y. True \<and> (userDie y \<noteq> None \<longrightarrow> userDie x \<noteq> None))
            (\<lambda>g'. userDie g' \<noteq> None)"
      by (rule step_weaken) simp_all
  qed
  with False show ?thesis by (simp add: pick_dice_def)
qed

lemma step_roll:
  assumes "intro \<noteq> []" and "hd intro \<noteq> CHR ''G''"
  shows "step (roll env title intro d) (\<lambda>_. True) (\<lambda>v. v \<noteq> JNull)"
  unfolding roll_def
proof (intro step_say step_bind[OF step_create_generator] step_bind[OF step_getUserInput])
  fix generator and userNumber :: "int option"
  show "step (case userNumber of
             None \<Rightarrow> io_return JNull
           | Some u \<Rightarrow>
               (let result = computeResult generator u
                in say [Line (reveal_line generator),
                        Line (computed_line generator u (int (numFaces d)) result)]
                    (io_return (face_at d result))))
          (\<lambda>y. (True \<and> (y \<noteq> JNull \<longrightarrow> True)) \<and> (y \<noteq> JNull \<longrightarrow> userNumber \<noteq> None))
          (\<lambda>v. v \<noteq> JNull)"
    by (cases userNumber)
       (auto simp: Let_def reveal_line_def computed_line_def intro!: step_return step_say)
  show "plain (roll_lines intro generator d)"
    using assms by (rule plain_roll_lines)
qed (simp_all add: newline_def)

lemma step_computerRoll: "step (computerRoll env g) (\<lambda>_. True) (\<lambda>v. v \<noteq> JNull)"
  unfolding computerRoll_def
  by (cases "computerDie g") (auto intro!: step_throw step_roll)

lemma step_userRoll: "step (userRoll env g) (\<lambda>_. True) (\<lambda>v. v \<noteq> JNull)"
  unfolding userRoll_def
  by (cases "userDie g") (auto intro!: step_throw step_roll)

lemma stops_return: "stops_quietly (io_return x)"
  by (auto simp: stops_quietly_def io_return_def intro!: exI[of _ "[]"])

lemma stops_of_step: "step m p c \<Longrightarrow> stops_quietly m"
  unfolding step_def stops_quietly_def by blast

lemma stops_report: "stops_quietly (say (report g u c) (io_return ()))"
  unfolding stops_quietly_def say_def io_return_def
proof (intro allI impI)
  fix w w' :: world and r :: "unit outcome"
  assume "Some (Return (), w\<lparr>stdout := stdout w @ report g u c\<rparr>) = Some (r, w')"
  then have "stdout w' = stdout w @ report g u c" by auto
  moreover have "cancelled \<notin> set (report g u c)"
    by (auto simp: report_def cancelled_def verdict_def newline_def)
  ultimately show "\<exists>es. stdout w' = stdout w @ es \<and> (cancelled \<in> set es \<longrightarrow> quiet es)"
    by blast
qed

lemma stops_run:
  assumes "userDie g = None"
  shows "stops_quietly (run env g)"
  unfolding run_def
proof (rule stops_bind[OF step_decideFirstPlayer])
  fix first :: "bool option"
  assume "first \<noteq> None"
  then obtain computerFirst where first: "first = Some computerFirst" by auto
  have "stops_quietly
          (io_bind (pick_dice computerFirst g) (\<lambda>g'.
             if userDie g' = None \<or> computerDie g' = None then io_return ()
             else
               io_bind (computerRoll env g') (\<lambda>computerRollFace.
                 if computerRollFace = JNull then io_return ()
                 else
                   io_bind (userRoll env g') (\<lambda>userRollFace.
                     if userRollFace = JNull then io_return ()
                     else say (report g' userRollFace computerRollFace) (io_return ())))))"
  proof (rule stops_bind[OF step_pick_dice[OF assms]])
    fix g' :: game
    assume ud: "userDie g' \<noteq> None"
    have rolls: "stops_quietly
          (io_bind (computerRoll env g') (\<lambda>computerRollFace.
                 if computerRollFace = JNull then io_return ()
                 else
                   io_bind (userRoll env g') (\<lambda>userRollFace.
                     if userRollFace = JNull then io_return ()
                     else say (report g' userRollFace computerRollFace) (io_return ()))))"
    proof (rule stops_bind[OF step_computerRoll])
      fix computerRollFace :: jsval
      assume c: "computerRollFace \<noteq> JNull"
      have "stops_quietly
          (io_bind (userRoll env g') (\<lambda>userRollFace.
                     if userRollFace = JNull then io_return ()
                     else say (report g' userRollFace computerRollFace) (io_return ())))"
        by (rule stops_bind[OF step_userRoll]) (auto intro: stops_report step_return)
      with c show "stops_quietly
          (if computerRollFace = JNull then io_return ()
           else io_bind (userRoll env g') (\<lambda>userRollFace.
                     if userRollFace = JNull then io_return ()
                     else say (report g' userRollFace computerRollFace) (io_return ())))"
        by simp
    next
      fix computerRollFace :: jsval
      assume "\<not> computerRollFace \<noteq> JNull"
      then show "step
          (if computerRollFace = JNull then io_return ()
           else io_bind (userRoll env g') (\<lambda>userRollFace.
                     if userRollFace = JNull then io_return ()
                     else say (report g' userRollFace computerRollFace) (io_return ())))
          (\<lambda>_. True) (\<lambda>_. False)"
        by (simp add: step_return)
    qed
    show "stops_quietly
          (if userDie g' = None \<or> computerDie g' = None then io_return ()
             else
               io_bind (computerRoll env g') (\<lambda>computerRollFace.
                 if computerRollFace = JNull then io_return ()
                 else
                   io_bind (userRoll env g') (\<lambda>userRollFace.
                     if userRollFace = JNull then io_return ()
                     else say (report g' userRollFace computerRollFace) (io_return ()))))"
      using rolls by (simp add: stops_return)
  next
    fix g' :: game
    assume "\<not> userDie g' \<noteq> None"
    then show "step
          (if userDie g' = None \<or> computerDie g' = None then io_return ()
             else
               io_bind (computerRoll env g') (\<lambda>computerRollFace.
                 if computerRollFace = JNull then io_return ()
                 else
                   io_bind (userRoll env g') (\<lambda>userRollFace.
                     if userRollFace = JNull then io_return ()
                     else say (report g' userRollFace computerRollFace) (io_return ()))))
          (\<lambda>_. True) (\<lambda>_. False)"
      by (simp add: step_return)
  qed
  with first show "stops_quietly
          (case first of
         None \<Rightarrow> io_return ()
       | Some computerFirst \<Rightarrow>
           io_bind (pick_dice computerFirst g) (\<lambda>g'.
             if userDie g' = None \<or> computerDie g' = None then io_return ()
             else
               io_bind (computerRoll env g') (\<lambda>computerRollFace.
                 if computerRollFace = JNull then io_return ()
                 else
                   io_bind (userRoll env g') (\<lambda>userRollFace.
                     if userRollFace = JNull then io_return ()
                     else say (report g' userRollFace computerRollFace) (io_return ())))))"
    by simp
next
  fix first :: "bool option"
  assume "\<not> first \<noteq> None"
  then show "step
          (case first of
         None \<Rightarrow> io_return ()
       | Some computerFirst \<Rightarrow>
           io_bind (pick_dice computerFirst g) (\<lambda>g'.
             if userDie g' = None \<or> computerDie g' = None then io_return ()
             else
               io_bind (computerRoll env g') (\<lambda>computerRollFace.
                 if computerRollFace = JNull then io_return ()
                 else
                   io_bind (userRoll env g') (\<lambda>userRollFace.
                     if userRollFace = JNull then io_return ()
                     else say (report g' userRollFace computerRollFace) (io_return ())))))
          (\<lambda>_. True) (\<lambda>_. False)"
    by (simp add: step_return)
qed

lemma stops_catch:
  assumes "stops_quietly m"
  shows "stops_quietly (catch_error m)"
  unfolding stops_quietly_def
proof (intro allI impI)
  fix w r w'
  assume c: "catch_error m w = Some (r, w')"
  then obtain r0 w0 where m: "m w = Some (r0, w0)"
    by (cases "m w") (auto simp: catch_error_def)
  from assms[unfolded stops_quietly_def, rule_format, OF m] obtain es where
    es: "stdout w0 = stdout w @ es" "cancelled \<in> set es \<longrightarrow> quiet es" by blast
  show "\<exists>es. stdout w' = stdout w @ es \<and> (cancelled \<in> set es \<longrightarrow> quiet es)"
  proof (cases r0)
    case (Throw e)
    obtain msg where e: "e = Error msg" by (cases e)
    from c m Throw e have "stdout w' = stdout w0 @ [Line (''Error: '' @ msg)]"
      by (auto simp: catch_error_def)
    with es show ?thesis
      by (intro exI[of _ "es @ [Line (''Error: '' @ msg)]"]) (auto simp: cancelled_def)
  next
    case (Return x)
    with c m have "w' = w0" by (auto simp: catch_error_def)
    with es show ?thesis by blast
  next
    case Pending
    with c m have "w' = w0" by (auto simp: catch_error_def)
    with es show ?thesis by blast
  qed
qed

text \<open>
  In \<open>src/unnamed/part_000\<close>, whatever the arguments, the runtime, the random bytes and
  the lines typed: a transcript of \<open>main\<close> that holds \<open>Game cancelled.\<close> holds neither a
  roll, nor a verdict, nor the probability table. \<open>run\<close> returns after every prompt that
  yields \<open>null\<close>.
\<close>

theorem cancelled_match_reports_nothing:
  assumes "main env argv w = Some (r, w')"
  shows "\<exists>es. stdout w' = stdout w @ es
            \<and> (Line ''Game cancelled.'' \<in> set es \<longrightarrow> \<not> list_ex result_event es)"
proof -
  have "stops_quietly (case parseDice argv of
          Inl e \<Rightarrow> (\<lambda>w. Some (Throw e, w))
        | Inr ds \<Rightarrow> run env (new_Game ds))"
    by (cases "parseDice argv")
       (auto intro!: stops_run stops_of_step[OF step_throw] simp: new_Game_def)
  then have "stops_quietly (main env argv)"
    unfolding main_def by (rule stops_catch)
  from this[unfolded stops_quietly_def, rule_format, OF assms]
  show ?thesis by (simp add: cancelled_def quiet_def)
qed

lemma parseDice_classic:
  "parseDice [''2,2,4,4,9,9'', ''1,1,6,6,8,8'', ''3,3,5,5,7,7''] = Inr classic"
  by (simp add: parseDice_def Let_def StringToNumber_integer_token token_eval classic_def)

lemma example_coin_flip_cancelled:
  "\<exists>g. main (example_env hs) [''2,2,4,4,9,9'', ''1,1,6,6,8,8'', ''3,3,5,5,7,7'']
          \<lparr>entropy = sconst 1, randomInts = sconst 1, stdin = [''X''], stdout = []\<rparr>
       = Some (Return (),
          \<lparr>entropy = sconst 1, randomInts = sconst 1, stdin = [],
           stdout = [Line ''Let's decide who picks first with a provably fair coin flip.'',
                     Line (''Computer has chosen (hidden). HMAC: '' @ getHMAC g),
                     Line ''You pick 0 or 1:'', Line ''0 - 0'', Line ''1 - 1'',
                     Line ''X - exit'', Line ''? - help'', Prompt, Line ''Game cancelled.'']\<rparr>)"
proof -
  obtain g where g: "new_FairRandomGenerator (example_env hs) 1 (sconst 1) = Some (Inr (g, sconst 1))"
    using example_generator by blast
  show ?thesis
    by (rule exI[of _ g])
       (simp add: main_def catch_error_def parseDice_classic run_def decideFirstPlayer_def
          say_def io_bind_def create_generator_def g getUserInputStatic_def ask_def
          prompt_loop_exit io_return_def)
qed

text \<open>The classic dice with \<open>X\<close> typed at the coin flip: the match ends there.\<close>

theorem cancelled_match_reports_nothing_witness:
  "\<exists>w'. main (example_env [''sha256'']) [''2,2,4,4,9,9'', ''1,1,6,6,8,8'', ''3,3,5,5,7,7'']
          \<lparr>entropy = sconst 1, randomInts = sconst 1, stdin = [''X''], stdout = []\<rparr>
          = Some (Return (), w')
        \<and> Line ''Game cancelled.'' \<in> set (stdout w')
        \<and> \<not> list_ex result_event (stdout w')"
proof -
  obtain g where m: "main (example_env [''sha256'']) [''2,2,4,4,9,9'', ''1,1,6,6,8,8'', ''3,3,5,5,7,7'']
          \<lparr>entropy = sconst 1, randomInts = sconst 1, stdin = [''X''], stdout = []\<rparr>
       = Some (Return (),
          \<lparr>entropy = sconst 1, randomInts = sconst 1, stdin = [],
           stdout = [Line ''Let's decide who picks first with a provably fair coin flip.'',
                     Line (''Computer has chosen (hidden). HMAC: '' @ getHMAC g),
                     Line ''You pick 0 or 1:'', Line ''0 - 0'', Line ''1 - 1'',
                     Line ''X - exit'', Line ''? - help'', Prompt, Line ''Game cancelled.'']\<rparr>)"
    using example_coin_flip_cancelled by blast
  from cancelled_match_reports_nothing[OF m] m show ?thesis
    by simp
qed

end
